theory Spec2Isabelle
  imports Main "HOL-Library.Word"
begin

section \<open>HyperERC721: the contract state and its errors\<close>

text \<open>
  A shallow embedding of \<^verbatim>\<open>contracts/HyperERC721.sol\<close>. A Solidity name that starts with
  an underscore is written with the prefix \<open>u_\<close> (\<^verbatim>\<open>_nextTokenId\<close> is \<open>u_nextTokenId\<close>).
  The unsigned integer types are words of their width; Solidity 0.8 arithmetic is checked,
  so every \<^verbatim>\<open>+\<close>, \<^verbatim>\<open>-\<close>, \<^verbatim>\<open>*\<close> of the source is an operation that
  fails with \<open>Panic\<close> where the mathematical result leaves the type.
  A call either returns a value or reverts; a revert is the \<open>Inl\<close> of a sum, and the
  transaction wrapper \<open>transact\<close> below keeps the old state then.
\<close>

type_synonym uint256 = "256 word"
type_synonym uint96 = "96 word"
type_synonym address = "160 word"

datatype error =
    OwnableUnauthorizedAccount address
  | OwnableInvalidOwner address
  | ERC721NonexistentToken uint256
  | ERC721InvalidReceiver address
  | ERC721InvalidSender address
  | ERC721IncorrectOwner address uint256 address
  | ERC721InsufficientApproval address uint256
  | ERC721InvalidApprover address
  | ERC721InvalidOperator address
  | EnforcedPause
  | ExpectedPause
  | TransferFailed
  | CallFailed
  | Panic
  | Error string

text \<open>
  The storage of the contract: the fields declared in HyperERC721.sol, and the fields of the
  OpenZeppelin 5 base contracts it inherits that its functions read or write
  (\<^verbatim>\<open>Ownable._owner\<close>, \<^verbatim>\<open>Pausable._paused\<close>, \<^verbatim>\<open>ERC721._owners\<close>,
  \<^verbatim>\<open>ERC721._balances\<close>, the two approval mappings, \<^verbatim>\<open>ERC721URIStorage._tokenURIs\<close>),
  and the ether held by the contract. A Solidity mapping is a total function whose default
  value is zero (the empty string for \<^verbatim>\<open>_tokenURIs\<close>).
\<close>

record contract =
  u_name :: string
  u_symbol :: string
  u_owner :: address
  u_paused :: bool
  u_owners :: "uint256 \<Rightarrow> address"
  u_balances :: "address \<Rightarrow> uint256"
  u_tokenApprovals :: "uint256 \<Rightarrow> address"
  u_operatorApprovals :: "address \<Rightarrow> address \<Rightarrow> bool"
  u_tokenURIs :: "uint256 \<Rightarrow> string"
  u_nextTokenId :: uint256
  maxSupply :: uint256
  publicMintPrice :: uint256
  maxMintsPerAddress :: uint256
  publicMintEnabled :: bool
  u_baseTokenURI :: string
  useJsonExtension :: bool
  royaltyRecipient :: address
  royaltyFeeBps :: uint96
  mintsPerAddress :: "address \<Rightarrow> uint256"
  balance :: nat

subsection \<open>Checked arithmetic and \<^verbatim>\<open>require\<close>\<close>

definition checked_add :: "uint256 \<Rightarrow> uint256 \<Rightarrow> error + uint256" where
  "checked_add a b = (if unat a + unat b < 2 ^ 256 then Inr (a + b) else Inl Panic)"

definition checked_sub :: "uint256 \<Rightarrow> uint256 \<Rightarrow> error + uint256" where
  "checked_sub a b = (if unat b \<le> unat a then Inr (a - b) else Inl Panic)"

definition checked_mul :: "uint256 \<Rightarrow> uint256 \<Rightarrow> error + uint256" where
  "checked_mul a b = (if unat a * unat b < 2 ^ 256 then Inr (a * b) else Inl Panic)"

definition require :: "bool \<Rightarrow> string \<Rightarrow> error + unit" where
  "require c msg = (if c then Inr () else Inl (Error msg))"

text \<open>Sequencing of calls that may revert: the first revert ends the call.\<close>

definition andThen :: "error + 'a \<Rightarrow> ('a \<Rightarrow> error + 'b) \<Rightarrow> error + 'b" where
  "andThen r f = (case r of Inl e \<Rightarrow> Inl e | Inr v \<Rightarrow> f v)"

subsection \<open>\<^verbatim>\<open>Strings.toString\<close>\<close>

text \<open>
  \<^verbatim>\<open>Strings.toString(uint256)\<close> of OpenZeppelin: the decimal digits of the value, most
  significant first, \<^verbatim>\<open>"0"\<close> for zero. Each digit is read from the library's
  table of digits at an index below ten.
\<close>

definition HEX_DIGITS :: string where
  "HEX_DIGITS = ''0123456789abcdef''"

definition digit_char :: "nat \<Rightarrow> char" where
  "digit_char d = HEX_DIGITS ! d"

fun toString_nat :: "nat \<Rightarrow> string" where
  "toString_nat n =
     (if n < 10 then [digit_char n]
      else toString_nat (n div 10) @ [digit_char (n mod 10)])"

declare toString_nat.simps [simp del]

definition toString :: "uint256 \<Rightarrow> string" where
  "toString v = toString_nat (unat v)"

section \<open>Token URI resolution\<close>

text \<open>
  \<^verbatim>\<open>ERC721._requireOwned\<close>: the owner of the token, reverting for a token whose owner is the
  zero address (never minted, or burned).
\<close>

definition u_ownerOf :: "contract \<Rightarrow> uint256 \<Rightarrow> address" where
  "u_ownerOf s tokenId = u_owners s tokenId"

definition u_requireOwned :: "contract \<Rightarrow> uint256 \<Rightarrow> error + address" where
  "u_requireOwned s tokenId =
     (let owner = u_ownerOf s tokenId
      in if owner = 0 then Inl (ERC721NonexistentToken tokenId) else Inr owner)"

text \<open>HyperERC721.sol, line 182: \<^verbatim>\<open>_baseURI\<close> returns the stored base.\<close>

definition u_baseURI :: "contract \<Rightarrow> string" where
  "u_baseURI s = u_baseTokenURI s"

text \<open>
  \<^verbatim>\<open>ERC721.tokenURI\<close> of OpenZeppelin 5: the base followed by the decimal token ID, or the
  empty string when there is no base.
\<close>

definition ERC721_tokenURI :: "contract \<Rightarrow> uint256 \<Rightarrow> error + string" where
  "ERC721_tokenURI s tokenId =
     andThen (u_requireOwned s tokenId) (\<lambda>_.
       let baseURI = u_baseURI s
       in Inr (if length baseURI > 0 then baseURI @ toString tokenId else []))"

text \<open>
  \<^verbatim>\<open>ERC721URIStorage.tokenURI\<close> of OpenZeppelin 5 (the version package.json asks for):
  with no base it returns the stored per-token URI; with a base and a stored per-token URI
  it returns their concatenation; otherwise it defers to \<^verbatim>\<open>ERC721.tokenURI\<close>.
\<close>

definition ERC721URIStorage_tokenURI :: "contract \<Rightarrow> uint256 \<Rightarrow> error + string" where
  "ERC721URIStorage_tokenURI s tokenId =
     andThen (u_requireOwned s tokenId) (\<lambda>_.
       let tokenURI' = u_tokenURIs s tokenId;
           base = u_baseURI s
       in if length base = 0 then Inr tokenURI'
          else if length tokenURI' > 0 then Inr (base @ tokenURI')
          else ERC721_tokenURI s tokenId)"

text \<open>
  HyperERC721.sol, lines 215 to 248. The source compares the two strings through
  \<^verbatim>\<open>keccak256(abi.encodePacked(_))\<close>, the Solidity idiom for string equality; the model
  compares the strings themselves (the hash is taken to be injective on them).
\<close>

definition tokenURI :: "contract \<Rightarrow> uint256 \<Rightarrow> error + string" where
  "tokenURI s tokenId =
     andThen (u_requireOwned s tokenId) (\<lambda>_.
     andThen (ERC721URIStorage_tokenURI s tokenId) (\<lambda>parentURI.
       let baseURI = u_baseURI s
       in if length baseURI = 0 then Inr parentURI
          else
            let defaultTokenIdStr = toString tokenId;
                expectedBaseURI = baseURI @ defaultTokenIdStr
            in if parentURI \<noteq> expectedBaseURI then Inr parentURI
               else if useJsonExtension s
                    then Inr (baseURI @ defaultTokenIdStr @ ''.json'')
                    else Inr (baseURI @ defaultTokenIdStr)))"

section \<open>Access control, pausing and token bookkeeping of the base contracts\<close>

text \<open>\<^verbatim>\<open>Ownable.owner\<close> and the modifier \<^verbatim>\<open>onlyOwner\<close> (\<^verbatim>\<open>_checkOwner\<close>) for the caller \<open>sender\<close>.\<close>

definition owner :: "contract \<Rightarrow> address" where
  "owner s = u_owner s"

definition u_checkOwner :: "contract \<Rightarrow> address \<Rightarrow> error + unit" where
  "u_checkOwner s sender =
     (if owner s \<noteq> sender then Inl (OwnableUnauthorizedAccount sender) else Inr ())"

text \<open>\<^verbatim>\<open>Pausable\<close>: the modifiers \<^verbatim>\<open>whenNotPaused\<close> and \<^verbatim>\<open>whenPaused\<close>.\<close>

definition paused :: "contract \<Rightarrow> bool" where
  "paused s = u_paused s"

definition u_requireNotPaused :: "contract \<Rightarrow> error + unit" where
  "u_requireNotPaused s = (if paused s then Inl EnforcedPause else Inr ())"

definition u_requirePaused :: "contract \<Rightarrow> error + unit" where
  "u_requirePaused s = (if \<not> paused s then Inl ExpectedPause else Inr ())"

text \<open>\<^verbatim>\<open>ERC721\<close>: approvals and the authorisation check of a transfer.\<close>

definition isApprovedForAll :: "contract \<Rightarrow> address \<Rightarrow> address \<Rightarrow> bool" where
  "isApprovedForAll s holder operator = u_operatorApprovals s holder operator"

definition u_getApproved :: "contract \<Rightarrow> uint256 \<Rightarrow> address" where
  "u_getApproved s tokenId = u_tokenApprovals s tokenId"

definition u_isAuthorized :: "contract \<Rightarrow> address \<Rightarrow> address \<Rightarrow> uint256 \<Rightarrow> bool" where
  "u_isAuthorized s holder spender tokenId =
     (spender \<noteq> 0 \<and>
      (holder = spender \<or> isApprovedForAll s holder spender \<or> u_getApproved s tokenId = spender))"

definition u_checkAuthorized :: "contract \<Rightarrow> address \<Rightarrow> address \<Rightarrow> uint256 \<Rightarrow> error + unit" where
  "u_checkAuthorized s holder spender tokenId =
     (if \<not> u_isAuthorized s holder spender tokenId
      then (if holder = 0 then Inl (ERC721NonexistentToken tokenId)
            else Inl (ERC721InsufficientApproval spender tokenId))
      else Inr ())"

text \<open>
  \<^verbatim>\<open>_update\<close>, the one place where a token changes hands. HyperERC721.sol, line 200,
  calls \<^verbatim>\<open>super._update\<close>: \<^verbatim>\<open>ERC721Pausable._update\<close> (the pause gate), then
  \<^verbatim>\<open>ERC721Enumerable._update\<close> and \<^verbatim>\<open>ERC721._update\<close>. The balances are updated
  unchecked, as in the library. The index arrays of \<^verbatim>\<open>ERC721Enumerable\<close> are bookkeeping
  for \<^verbatim>\<open>totalSupply\<close> and \<^verbatim>\<open>tokenByIndex\<close> only, they never revert here, and they are
  not part of this model.
\<close>

definition u_update :: "contract \<Rightarrow> address \<Rightarrow> uint256 \<Rightarrow> address \<Rightarrow> error + address \<times> contract" where
  "u_update s to tokenId auth =
     andThen (u_requireNotPaused s) (\<lambda>_.
       let from = u_ownerOf s tokenId
       in andThen (if auth \<noteq> 0 then u_checkAuthorized s from auth tokenId else Inr ()) (\<lambda>_.
            let s1 = (if from \<noteq> 0
                      then s\<lparr>u_tokenApprovals := (u_tokenApprovals s)(tokenId := 0),
                             u_balances := (u_balances s)(from := u_balances s from - 1)\<rparr>
                      else s);
                s2 = (if to \<noteq> 0
                      then s1\<lparr>u_balances := (u_balances s1)(to := u_balances s1 to + 1)\<rparr>
                      else s1)
            in Inr (from, s2\<lparr>u_owners := (u_owners s2)(tokenId := to)\<rparr>)))"

definition u_mint :: "contract \<Rightarrow> address \<Rightarrow> uint256 \<Rightarrow> error + contract" where
  "u_mint s to tokenId =
     (if to = 0 then Inl (ERC721InvalidReceiver 0)
      else andThen (u_update s to tokenId 0) (\<lambda>(previousOwner, s').
             if previousOwner \<noteq> 0 then Inl (ERC721InvalidSender 0) else Inr s'))"

section \<open>Calls, and what a receiver does when it is handed a token\<close>

text \<open>
  \<^verbatim>\<open>_safeMint\<close> and \<^verbatim>\<open>safeTransferFrom\<close> end with \<^verbatim>\<open>checkOnERC721Received\<close>: when the
  receiver is a contract, its \<^verbatim>\<open>onERC721Received\<close> is called, and while it runs it can
  call this contract again, itself or through other contracts. A \<open>callback\<close> is what one
  such run does: the calls into this contract that are made while it runs, each with its
  caller, and the answer of the receiver in the end. An account without code is
  \<open>Callback [] Accept\<close>. A call names the function and its arguments; \<^verbatim>\<open>publicMint\<close>
  is payable and carries a value (its first argument here); \<^verbatim>\<open>mint\<close> and
  \<^verbatim>\<open>publicMint\<close> carry one callback for each token, in the order of minting (the
  tokens beyond the list go to a receiver that accepts and calls nothing).
\<close>

text \<open>
  The answer of \<^verbatim>\<open>onERC721Received\<close>: the receiver returns the selector (\<open>Accept\<close>);
  it returns another value or reverts with no reason, which \<^verbatim>\<open>checkOnERC721Received\<close>
  turns into \<^verbatim>\<open>ERC721InvalidReceiver\<close> (\<open>Refuse\<close>); or it reverts with a reason, which
  is raised again as it is (\<open>RevertWith\<close>).
\<close>

datatype answer = Accept | Refuse | RevertWith error

datatype call =
    Mint address uint256 "callback list"
  | PublicMint uint256 uint256 "callback list"
  | SetBaseURI string
  | SetJsonExtension bool
  | SetPublicMintSettings bool uint256 uint256
  | SetRoyaltyInfo address uint96
  | Withdraw
  | Pause
  | Unpause
  | Approve address uint256
  | SetApprovalForAll address bool
  | TransferFrom address address uint256
  | SafeTransferFrom address address uint256 callback
  | TransferOwnership address
  | RenounceOwnership
and callback = Callback (callsOf: "(address \<times> call) list") (answer: answer)

text \<open>
  An \<open>executor\<close> runs one call of a given caller on a state. The functions that reach a
  receiver take the executor that runs the receiver's calls.
\<close>

type_synonym executor = "address \<Rightarrow> call \<Rightarrow> contract \<Rightarrow> error + contract"

text \<open>
  The calls of a callback run in order. A call that reverts leaves the state it found,
  and the receiver goes on (a receiver that lets the failure through is one that
  reverts: its answer is \<open>RevertWith\<close> or \<open>Refuse\<close>).
\<close>

fun runCalls :: "executor \<Rightarrow> (address \<times> call) list \<Rightarrow> contract \<Rightarrow> contract" where
  "runCalls exec [] s = s"
| "runCalls exec ((caller, c) # cs) s =
     (case exec caller c s of
        Inl e \<Rightarrow> runCalls exec cs s
      | Inr s' \<Rightarrow> runCalls exec cs s')"

definition checkOnERC721Received ::
  "executor \<Rightarrow> address \<Rightarrow> callback \<Rightarrow> contract \<Rightarrow> error + contract" where
  "checkOnERC721Received exec to cb s =
     (let s' = runCalls exec (callsOf cb) s
      in case answer cb of
           Accept \<Rightarrow> Inr s'
         | Refuse \<Rightarrow> Inl (ERC721InvalidReceiver to)
         | RevertWith e \<Rightarrow> Inl e)"

definition u_safeMint ::
  "executor \<Rightarrow> contract \<Rightarrow> address \<Rightarrow> uint256 \<Rightarrow> callback \<Rightarrow> error + contract" where
  "u_safeMint exec s to tokenId cb =
     andThen (u_mint s to tokenId) (\<lambda>s'. checkOnERC721Received exec to cb s')"

text \<open>
  What else lies outside the contract: whether the owner's account accepts the ether of
  \<^verbatim>\<open>withdraw\<close>. \<^verbatim>\<open>transfer\<close> forwards too little gas for the owner's account to call
  back.
\<close>

record env =
  acceptsEther :: "address \<Rightarrow> bool"

section \<open>The functions of HyperERC721.sol\<close>

text \<open>
  Lines 46 to 66. \<^verbatim>\<open>Ownable(msg.sender)\<close> rejects the zero address;
  \<^verbatim>\<open>0.01 ether\<close> is \<open>10 ^ 16\<close> wei.
\<close>

definition constructor ::
  "address \<Rightarrow> string \<Rightarrow> string \<Rightarrow> uint256 \<Rightarrow> string \<Rightarrow> address \<Rightarrow> uint96 \<Rightarrow> bool \<Rightarrow> error + contract" where
  "constructor sender name symbol maxSupply' baseURI royaltyRecipient' royaltyFeeBps' useJsonExtension' =
     (if sender = 0 then Inl (OwnableInvalidOwner 0)
      else Inr \<lparr>u_name = name, u_symbol = symbol, u_owner = sender, u_paused = False,
                u_owners = (\<lambda>_. 0), u_balances = (\<lambda>_. 0), u_tokenApprovals = (\<lambda>_. 0),
                u_operatorApprovals = (\<lambda>_ _. False), u_tokenURIs = (\<lambda>_. []),
                u_nextTokenId = 1, maxSupply = maxSupply', publicMintPrice = 10 ^ 16,
                maxMintsPerAddress = 10, publicMintEnabled = False, u_baseTokenURI = baseURI,
                useJsonExtension = useJsonExtension', royaltyRecipient = royaltyRecipient',
                royaltyFeeBps = royaltyFeeBps', mintsPerAddress = (\<lambda>_. 0), balance = 0\<rparr>)"

text \<open>
  The minting loop of lines 76 to 80 and 96 to 100, with \<open>k\<close> the iterations still to run
  and \<open>cbs\<close> the callbacks of the tokens still to mint: read the counter from storage,
  increment it (checked), mint the token read and hand it to the receiver. The next
  iteration reads the counter again, after whatever the receiver did.
\<close>

definition nextCallback :: "callback list \<Rightarrow> callback" where
  "nextCallback cbs = (case cbs of [] \<Rightarrow> Callback [] Accept | cb # _ \<Rightarrow> cb)"

fun mintLoop :: "executor \<Rightarrow> nat \<Rightarrow> address \<Rightarrow> callback list \<Rightarrow> contract \<Rightarrow> error + contract" where
  "mintLoop exec 0 to cbs s = Inr s"
| "mintLoop exec (Suc k) to cbs s =
     (let tokenId = u_nextTokenId s
      in case checked_add (u_nextTokenId s) 1 of
           Inl e \<Rightarrow> Inl e
         | Inr n \<Rightarrow>
             (case u_safeMint exec (s\<lparr>u_nextTokenId := n\<rparr>) to tokenId (nextCallback cbs) of
                Inl e \<Rightarrow> Inl e
              | Inr s' \<Rightarrow> mintLoop exec k to (tl cbs) s'))"

text \<open>The guard of lines 74 and 90: \<^verbatim>\<open>_nextTokenId + quantity - 1 <= maxSupply\<close>.\<close>

definition supplyCheck :: "contract \<Rightarrow> uint256 \<Rightarrow> error + unit" where
  "supplyCheck s quantity =
     andThen (checked_add (u_nextTokenId s) quantity) (\<lambda>a.
     andThen (checked_sub a 1) (\<lambda>b.
       require (b \<le> maxSupply s) ''Exceeds maximum supply''))"

text \<open>Lines 73 to 81.\<close>

definition mint ::
  "executor \<Rightarrow> address \<Rightarrow> contract \<Rightarrow> address \<Rightarrow> uint256 \<Rightarrow> callback list \<Rightarrow> error + contract" where
  "mint exec sender s to quantity cbs =
     andThen (u_checkOwner s sender) (\<lambda>_.
     andThen (supplyCheck s quantity) (\<lambda>_.
       mintLoop exec (unat quantity) to cbs s))"

text \<open>
  Lines 87 to 101. The function is payable: the value sent is on the contract's balance
  when the body runs (and is returned by a revert).
\<close>

definition publicMint ::
  "executor \<Rightarrow> address \<Rightarrow> uint256 \<Rightarrow> contract \<Rightarrow> uint256 \<Rightarrow> callback list \<Rightarrow> error + contract" where
  "publicMint exec sender val s0 quantity cbs =
     (let s = s0\<lparr>balance := balance s0 + unat val\<rparr>
      in andThen (u_requireNotPaused s) (\<lambda>_.
         andThen (require (publicMintEnabled s) ''Public mint not enabled'') (\<lambda>_.
         andThen (require (quantity > 0) ''Quantity must be greater than 0'') (\<lambda>_.
         andThen (supplyCheck s quantity) (\<lambda>_.
         andThen (checked_add (mintsPerAddress s sender) quantity) (\<lambda>m.
         andThen (require (m \<le> maxMintsPerAddress s) ''Exceeds max mints per address'') (\<lambda>_.
         andThen (checked_mul (publicMintPrice s) quantity) (\<lambda>cost.
         andThen (require (val \<ge> cost) ''Insufficient payment'') (\<lambda>_.
         andThen (checked_add (mintsPerAddress s sender) quantity) (\<lambda>m'.
           mintLoop exec (unat quantity) sender cbs
             (s\<lparr>mintsPerAddress := (mintsPerAddress s)(sender := m')\<rparr>)))))))))))"

text \<open>Lines 107 to 117.\<close>

definition setBaseURI :: "address \<Rightarrow> contract \<Rightarrow> string \<Rightarrow> error + contract" where
  "setBaseURI sender s baseURI =
     andThen (u_checkOwner s sender) (\<lambda>_. Inr (s\<lparr>u_baseTokenURI := baseURI\<rparr>))"

definition setJsonExtension :: "address \<Rightarrow> contract \<Rightarrow> bool \<Rightarrow> error + contract" where
  "setJsonExtension sender s useExtension =
     andThen (u_checkOwner s sender) (\<lambda>_. Inr (s\<lparr>useJsonExtension := useExtension\<rparr>))"

text \<open>Lines 125 to 129.\<close>

definition setPublicMintSettings ::
  "address \<Rightarrow> contract \<Rightarrow> bool \<Rightarrow> uint256 \<Rightarrow> uint256 \<Rightarrow> error + contract" where
  "setPublicMintSettings sender s enabled price maxPerAddress =
     andThen (u_checkOwner s sender) (\<lambda>_.
       Inr (s\<lparr>publicMintEnabled := enabled, publicMintPrice := price,
              maxMintsPerAddress := maxPerAddress\<rparr>))"

text \<open>Lines 136 to 140.\<close>

definition setRoyaltyInfo :: "address \<Rightarrow> contract \<Rightarrow> address \<Rightarrow> uint96 \<Rightarrow> error + contract" where
  "setRoyaltyInfo sender s recipient feeBps =
     andThen (u_checkOwner s sender) (\<lambda>_.
     andThen (require (feeBps \<le> 1000) ''Royalty fee too high'') (\<lambda>_.
       Inr (s\<lparr>royaltyRecipient := recipient, royaltyFeeBps := feeBps\<rparr>)))"

text \<open>Lines 145 to 149. \<^verbatim>\<open>transfer\<close> reverts when the owner's account refuses the ether.\<close>

definition withdraw :: "env \<Rightarrow> address \<Rightarrow> contract \<Rightarrow> error + contract" where
  "withdraw ev sender s =
     andThen (u_checkOwner s sender) (\<lambda>_.
     andThen (require (balance s > 0) ''No funds to withdraw'') (\<lambda>_.
       if acceptsEther ev (owner s) then Inr (s\<lparr>balance := 0\<rparr>) else Inl TransferFailed))"

text \<open>Lines 154 to 163, with \<^verbatim>\<open>Pausable._pause\<close> and \<^verbatim>\<open>Pausable._unpause\<close>.\<close>

definition pause :: "address \<Rightarrow> contract \<Rightarrow> error + contract" where
  "pause sender s =
     andThen (u_checkOwner s sender) (\<lambda>_.
     andThen (u_requireNotPaused s) (\<lambda>_. Inr (s\<lparr>u_paused := True\<rparr>)))"

definition unpause :: "address \<Rightarrow> contract \<Rightarrow> error + contract" where
  "unpause sender s =
     andThen (u_checkOwner s sender) (\<lambda>_.
     andThen (u_requirePaused s) (\<lambda>_. Inr (s\<lparr>u_paused := False\<rparr>)))"

text \<open>Lines 168 to 177.\<close>

definition nextTokenId :: "contract \<Rightarrow> uint256" where
  "nextTokenId s = u_nextTokenId s"

definition totalMinted :: "contract \<Rightarrow> error + uint256" where
  "totalMinted s = checked_sub (u_nextTokenId s) 1"

text \<open>
  Lines 189 to 197. The token ID is ignored. \<^verbatim>\<open>royaltyFeeBps\<close> is widened from
  \<^verbatim>\<open>uint96\<close> to \<^verbatim>\<open>uint256\<close> for the checked multiplication.
\<close>

definition royaltyInfo :: "contract \<Rightarrow> uint256 \<Rightarrow> uint256 \<Rightarrow> error + address \<times> uint256" where
  "royaltyInfo s tokenId salePrice =
     andThen (checked_mul salePrice (ucast (royaltyFeeBps s))) (\<lambda>p.
       Inr (royaltyRecipient s, p div 10000))"

section \<open>The inherited entry points\<close>

text \<open>
  The state-changing functions that HyperERC721 inherits unchanged from OpenZeppelin 5:
  \<^verbatim>\<open>ERC721.approve\<close>, \<^verbatim>\<open>setApprovalForAll\<close>, \<^verbatim>\<open>transferFrom\<close>,
  \<^verbatim>\<open>safeTransferFrom\<close>, and \<^verbatim>\<open>Ownable.transferOwnership\<close>,
  \<^verbatim>\<open>renounceOwnership\<close>. They are part of the transition system so that "every
  reachable state" covers every call the deployed contract accepts.
\<close>

definition approve :: "address \<Rightarrow> contract \<Rightarrow> address \<Rightarrow> uint256 \<Rightarrow> error + contract" where
  "approve sender s to tokenId =
     andThen (u_requireOwned s tokenId) (\<lambda>holder.
       if sender \<noteq> 0 \<and> holder \<noteq> sender \<and> \<not> isApprovedForAll s holder sender
       then Inl (ERC721InvalidApprover sender)
       else Inr (s\<lparr>u_tokenApprovals := (u_tokenApprovals s)(tokenId := to)\<rparr>))"

definition setApprovalForAll :: "address \<Rightarrow> contract \<Rightarrow> address \<Rightarrow> bool \<Rightarrow> error + contract" where
  "setApprovalForAll sender s operator approved =
     (if operator = 0 then Inl (ERC721InvalidOperator operator)
      else Inr (s\<lparr>u_operatorApprovals :=
                    (u_operatorApprovals s)(sender := (u_operatorApprovals s sender)(operator := approved))\<rparr>))"

definition transferFrom :: "address \<Rightarrow> contract \<Rightarrow> address \<Rightarrow> address \<Rightarrow> uint256 \<Rightarrow> error + contract" where
  "transferFrom sender s from to tokenId =
     (if to = 0 then Inl (ERC721InvalidReceiver 0)
      else andThen (u_update s to tokenId sender) (\<lambda>(previousOwner, s').
             if previousOwner \<noteq> from then Inl (ERC721IncorrectOwner from tokenId previousOwner)
             else Inr s'))"

definition safeTransferFrom ::
  "executor \<Rightarrow> address \<Rightarrow> contract \<Rightarrow> address \<Rightarrow> address \<Rightarrow> uint256 \<Rightarrow> callback
     \<Rightarrow> error + contract" where
  "safeTransferFrom exec sender s from to tokenId cb =
     andThen (transferFrom sender s from to tokenId) (\<lambda>s'.
       checkOnERC721Received exec to cb s')"

definition transferOwnership :: "address \<Rightarrow> contract \<Rightarrow> address \<Rightarrow> error + contract" where
  "transferOwnership sender s newOwner =
     andThen (u_checkOwner s sender) (\<lambda>_.
       if newOwner = 0 then Inl (OwnableInvalidOwner 0) else Inr (s\<lparr>u_owner := newOwner\<rparr>))"

definition renounceOwnership :: "address \<Rightarrow> contract \<Rightarrow> error + contract" where
  "renounceOwnership sender s =
     andThen (u_checkOwner s sender) (\<lambda>_. Inr (s\<lparr>u_owner := 0\<rparr>))"

section \<open>Transactions and reachable states\<close>

text \<open>
  \<open>invoke\<close> runs one call; the calls that a receiver makes from inside it are run by
  the executor given.
\<close>

fun invoke :: "executor \<Rightarrow> env \<Rightarrow> address \<Rightarrow> call \<Rightarrow> contract \<Rightarrow> error + contract" where
  "invoke exec ev sender (Mint to quantity cbs) s = mint exec sender s to quantity cbs"
| "invoke exec ev sender (PublicMint val quantity cbs) s = publicMint exec sender val s quantity cbs"
| "invoke exec ev sender (SetBaseURI baseURI) s = setBaseURI sender s baseURI"
| "invoke exec ev sender (SetJsonExtension useExtension) s = setJsonExtension sender s useExtension"
| "invoke exec ev sender (SetPublicMintSettings enabled price maxPerAddress) s =
     setPublicMintSettings sender s enabled price maxPerAddress"
| "invoke exec ev sender (SetRoyaltyInfo recipient feeBps) s = setRoyaltyInfo sender s recipient feeBps"
| "invoke exec ev sender Withdraw s = withdraw ev sender s"
| "invoke exec ev sender Pause s = pause sender s"
| "invoke exec ev sender Unpause s = unpause sender s"
| "invoke exec ev sender (Approve to tokenId) s = approve sender s to tokenId"
| "invoke exec ev sender (SetApprovalForAll operator approved) s =
     setApprovalForAll sender s operator approved"
| "invoke exec ev sender (TransferFrom from to tokenId) s = transferFrom sender s from to tokenId"
| "invoke exec ev sender (SafeTransferFrom from to tokenId cb) s =
     safeTransferFrom exec sender s from to tokenId cb"
| "invoke exec ev sender (TransferOwnership newOwner) s = transferOwnership sender s newOwner"
| "invoke exec ev sender RenounceOwnership s = renounceOwnership sender s"

text \<open>
  \<open>dispatch d\<close> runs a call with \<open>d\<close> levels of calls from receivers below it: the calls
  that a receiver makes are themselves run by \<open>dispatch\<close>, one level lower, and at level
  0 a call made by a receiver does not run (the EVM bounds the depth of its call stack).
  Every finite nest of calls runs in full at a depth that is large enough.
\<close>

primrec dispatch :: "nat \<Rightarrow> env \<Rightarrow> address \<Rightarrow> call \<Rightarrow> contract \<Rightarrow> error + contract" where
  "dispatch 0 ev = invoke (\<lambda>_ _ _. Inl CallFailed) ev"
| "dispatch (Suc d) ev = invoke (dispatch d ev) ev"

text \<open>A transaction that reverts leaves the state as it was and reports the error.\<close>

definition transact ::
  "nat \<Rightarrow> env \<Rightarrow> address \<Rightarrow> call \<Rightarrow> contract \<Rightarrow> contract \<times> error option" where
  "transact d ev sender c s =
     (case dispatch d ev sender c s of Inl e \<Rightarrow> (s, Some e) | Inr s' \<Rightarrow> (s', None))"

text \<open>
  The calls made directly by the receivers of a call, then all the calls below a call,
  at any depth, and the call together with all of them.
\<close>

fun direct :: "call \<Rightarrow> (address \<times> call) list" where
  "direct (Mint to quantity cbs) = concat (map callsOf cbs)"
| "direct (PublicMint val quantity cbs) = concat (map callsOf cbs)"
| "direct (SafeTransferFrom from to tokenId cb) = callsOf cb"
| "direct c = []"

fun nested :: "call \<Rightarrow> (address \<times> call) list"
  and nestedIn :: "callback \<Rightarrow> (address \<times> call) list" where
  "nested (Mint to quantity cbs) = concat (map nestedIn cbs)"
| "nested (PublicMint val quantity cbs) = concat (map nestedIn cbs)"
| "nested (SafeTransferFrom from to tokenId cb) = nestedIn cb"
| "nested c = []"
| "nestedIn (Callback cs a) = concat (map (\<lambda>(caller, c). (caller, c) # nested c) cs)"

definition allCalls :: "call \<Rightarrow> call list" where
  "allCalls c = c # map snd (nested c)"

text \<open>
  The reachable states: what a deployment leaves, and what any transaction, by any caller
  in any environment, with any calls made by the receivers it reaches, makes of a
  reachable state. No transaction or call comes from the zero address.
\<close>

inductive reachable :: "contract \<Rightarrow> bool" where
  deployed:
    "constructor sender name symbol maxSupply' baseURI royaltyRecipient' royaltyFeeBps' useJsonExtension'
       = Inr s \<Longrightarrow> reachable s"
| step: "reachable s \<Longrightarrow> sender \<noteq> 0 \<Longrightarrow> \<forall>(caller, c') \<in> set (nested c). caller \<noteq> 0 \<Longrightarrow>
         s' = fst (transact d ev sender c s) \<Longrightarrow> reachable s'"

section \<open>The invariant of the reachable states, and what a transaction keeps\<close>

text \<open>
  What every reachable state satisfies: the counter is at least 1; the tokens that have
  an owner are exactly those with an ID from 1 up to the counter, excluded; a token
  without an owner has no approved spender, and the zero address has approved no operator
  (so nobody is authorised to move a token that does not exist); no per-token URI is
  stored, since no function of the contract calls \<^verbatim>\<open>_setTokenURI\<close>.
\<close>

definition wellFormed :: "contract \<Rightarrow> bool" where
  "wellFormed s \<longleftrightarrow>
     1 \<le> unat (u_nextTokenId s) \<and>
     (\<forall>t. u_owners s t \<noteq> 0 \<longleftrightarrow> 1 \<le> unat t \<and> unat t < unat (u_nextTokenId s)) \<and>
     (\<forall>t. u_owners s t = 0 \<longrightarrow> u_tokenApprovals s t = 0) \<and>
     (\<forall>spender. \<not> u_operatorApprovals s 0 spender) \<and>
     (\<forall>t. u_tokenURIs s t = [])"

text \<open>
  \<open>keeps kb kf kr s0 s\<close>: the state \<open>s\<close> has the base of \<open>s0\<close> (when \<open>kb\<close>), its flag
  (when \<open>kf\<close>) and its royalty settings (when \<open>kr\<close>). \<open>sparing kb kf kr c\<close>: the call
  \<open>c\<close> is not \<^verbatim>\<open>setBaseURI\<close> (when \<open>kb\<close>), not \<^verbatim>\<open>setJsonExtension\<close> (when \<open>kf\<close>)
  and not \<^verbatim>\<open>setRoyaltyInfo\<close> (when \<open>kr\<close>).
\<close>

definition keeps :: "bool \<Rightarrow> bool \<Rightarrow> bool \<Rightarrow> contract \<Rightarrow> contract \<Rightarrow> bool" where
  "keeps kb kf kr s0 s \<longleftrightarrow>
     (kb \<longrightarrow> u_baseTokenURI s = u_baseTokenURI s0) \<and>
     (kf \<longrightarrow> useJsonExtension s = useJsonExtension s0) \<and>
     (kr \<longrightarrow> royaltyRecipient s = royaltyRecipient s0 \<and> royaltyFeeBps s = royaltyFeeBps s0)"

definition sparing :: "bool \<Rightarrow> bool \<Rightarrow> bool \<Rightarrow> call \<Rightarrow> bool" where
  "sparing kb kf kr c \<longleftrightarrow>
     (kb \<longrightarrow> (\<forall>b. c \<noteq> SetBaseURI b)) \<and>
     (kf \<longrightarrow> (\<forall>f. c \<noteq> SetJsonExtension f)) \<and>
     (kr \<longrightarrow> (\<forall>r f. c \<noteq> SetRoyaltyInfo r f))"

section \<open>The fixture of the repository's test suite\<close>

text \<open>
  The deployment of the test suite (collection ``Test NFT Collection'', maximum supply
  1000, base \<^verbatim>\<open>https://api.test.com/metadata/\<close>, royalty 500 basis points, the JSON
  extension on), by an owner account, followed by the owner minting token 1 to a second
  account; then that state after the owner has set the empty base, and after the owner
  has switched the flag off as well.
\<close>

definition test_env :: env where
  "test_env = \<lparr>acceptsEther = (\<lambda>_. True)\<rparr>"

definition test_owner :: address where
  "test_owner = 0xA1"

definition test_addr1 :: address where
  "test_addr1 = 0xB1"

definition test_addr2 :: address where
  "test_addr2 = 0xB2"

definition test_deployed :: contract where
  "test_deployed = projr (constructor test_owner ''Test NFT Collection'' ''TNC'' 1000
      ''https://api.test.com/metadata/'' test_owner 500 True)"

definition test_minted :: contract where
  "test_minted = fst (transact 0 test_env test_owner (Mint test_addr1 1 []) test_deployed)"

definition test_nobase :: contract where
  "test_nobase = fst (transact 0 test_env test_owner (SetBaseURI []) test_minted)"

definition test_nobase_plain :: contract where
  "test_nobase_plain = fst (transact 0 test_env test_owner (SetJsonExtension False) test_nobase)"

text \<open>
  A deployment with a maximum supply of 3 on which the owner has enabled the public mint
  at price 0 with ten mints per address. The second account is a contract: when it is
  handed its first token it calls \<^verbatim>\<open>publicMint(2)\<close> again before it accepts
  (\<open>reentrant_mint\<close>), or has the third account do so (\<open>relayed_mint\<close>).
\<close>

definition cap_deployed :: contract where
  "cap_deployed = projr (constructor test_owner ''Test NFT Collection'' ''TNC'' 3
      ''https://api.test.com/metadata/'' test_owner 500 True)"

definition cap_public :: contract where
  "cap_public = fst (transact 0 test_env test_owner (SetPublicMintSettings True 0 10) cap_deployed)"

definition reentrant_mint :: call where
  "reentrant_mint = PublicMint 0 2 [Callback [(test_addr1, PublicMint 0 2 [])] Accept]"

definition relayed_mint :: call where
  "relayed_mint = PublicMint 0 2 [Callback [(test_addr2, PublicMint 0 2 [])] Accept]"

definition cap_exceeded :: contract where
  "cap_exceeded = fst (transact 1 test_env test_addr1 reentrant_mint cap_public)"

definition ids_interleaved :: contract where
  "ids_interleaved = fst (transact 1 test_env test_addr1 relayed_mint cap_public)"

section \<open>Unfolding rules\<close>

lemmas call_defs = andThen_def require_def checked_add_def checked_sub_def checked_mul_def
  u_checkOwner_def owner_def u_requireNotPaused_def u_requirePaused_def paused_def
lemmas mint_defs = mint_def publicMint_def supplyCheck_def u_safeMint_def u_mint_def u_update_def
  u_ownerOf_def checkOnERC721Received_def nextCallback_def
lemmas uri_defs = tokenURI_def ERC721URIStorage_tokenURI_def ERC721_tokenURI_def
  u_requireOwned_def u_baseURI_def
lemmas test_defs = test_deployed_def constructor_def test_owner_def
  test_addr1_def test_addr2_def test_env_def
lemmas toString_eval = toString_def toString_nat.simps digit_char_def HEX_DIGITS_def

section \<open>What the minting loop and the receivers' calls preserve\<close>

text \<open>
  A property \<open>P\<close> of the state that every call of a receiver preserves, and every
  step of the minting loop (the increment of the counter and \<^verbatim>\<open>_mint\<close>), is preserved by
  the whole loop, the receivers' calls between the iterations included.
\<close>

lemma andThen_Inr: "andThen r f = Inr y \<longleftrightarrow> (\<exists>v. r = Inr v \<and> f v = Inr y)"
  by (cases r) (simp_all add: andThen_def)

lemma unat_add_256:
  "unat a + unat b < 2 ^ 256 \<Longrightarrow> unat (a + b :: uint256) = unat a + unat b"
  by (simp add: unat_word_ariths)

lemma u_mint_eq:
  "u_mint s to tokenId =
     (if to = 0 then Inl (ERC721InvalidReceiver 0)
      else if u_paused s then Inl EnforcedPause
      else if u_owners s tokenId \<noteq> 0 then Inl (ERC721InvalidSender 0)
      else Inr (s\<lparr>u_balances := (u_balances s)(to := u_balances s to + 1),
                   u_owners := (u_owners s)(tokenId := to)\<rparr>))"
  by (simp add: u_mint_def u_update_def u_ownerOf_def andThen_def Let_def
        u_requireNotPaused_def paused_def)

lemma runCalls_preserves:
  assumes "\<And>caller c s s'. (caller, c) \<in> set cs \<Longrightarrow> P s \<Longrightarrow> exec caller c s = Inr s' \<Longrightarrow> P s'"
    and "P s"
  shows "P (runCalls exec cs s)"
  using assms
proof (induction cs arbitrary: s)
  case Nil
  then show ?case by simp
next
  case (Cons x cs)
  obtain caller c where x: "x = (caller, c)" by (cases x)
  have rest: "P s \<Longrightarrow> P (runCalls exec cs s)" for s
  proof (rule Cons.IH)
    fix caller c s s'
    assume "(caller, c) \<in> set cs" "P s" "exec caller c s = Inr s'"
    then show "P s'" using Cons.prems(1) [of caller c s s'] by simp
  qed
  show ?case
  proof (cases "exec caller c s")
    case (Inl e)
    with rest [OF Cons.prems(2)] x show ?thesis by simp
  next
    case (Inr s1)
    from Cons.prems(1) [of caller c s s1] x Inr Cons.prems(2) have "P s1" by simp
    from rest [OF this] x Inr show ?thesis by simp
  qed
qed

lemma checkOnERC721Received_preserves:
  assumes "\<And>caller c s s'. (caller, c) \<in> set (callsOf cb) \<Longrightarrow> P s \<Longrightarrow> exec caller c s = Inr s' \<Longrightarrow> P s'"
    and "P s" and "checkOnERC721Received exec to cb s = Inr s'"
  shows "P s'"
proof -
  from assms(3) have "s' = runCalls exec (callsOf cb) s"
    by (simp add: checkOnERC721Received_def Let_def split: answer.splits)
  with runCalls_preserves [of "callsOf cb" P exec s, OF assms(1) assms(2)] show ?thesis by simp
qed

lemma nextCallback_calls:
  "set (callsOf (nextCallback cbs)) \<subseteq> set (concat (map callsOf cbs))"
  by (cases cbs) (simp_all add: nextCallback_def)

lemma tl_calls:
  "set (concat (map callsOf (tl cbs))) \<subseteq> set (concat (map callsOf cbs))"
  by (cases cbs) auto

lemma mintLoop_preserves:
  assumes calls: "\<And>caller c s s'. (caller, c) \<in> set (concat (map callsOf cbs)) \<Longrightarrow> P s \<Longrightarrow>
                    exec caller c s = Inr s' \<Longrightarrow> P s'"
    and step: "\<And>s n s1. P s \<Longrightarrow> checked_add (u_nextTokenId s) 1 = Inr n \<Longrightarrow>
                 u_mint (s\<lparr>u_nextTokenId := n\<rparr>) to (u_nextTokenId s) = Inr s1 \<Longrightarrow> P s1"
    and "P s" and "mintLoop exec k to cbs s = Inr s'"
  shows "P s'"
  using assms(3,4) calls
proof (induction k arbitrary: s cbs)
  case 0
  then show ?case by simp
next
  case (Suc k)
  from Suc.prems(2) obtain n s1 s2 where
    n: "checked_add (u_nextTokenId s) 1 = Inr n" and
    m: "u_mint (s\<lparr>u_nextTokenId := n\<rparr>) to (u_nextTokenId s) = Inr s1" and
    h: "checkOnERC721Received exec to (nextCallback cbs) s1 = Inr s2" and
    rest: "mintLoop exec k to (tl cbs) s2 = Inr s'"
    by (auto simp: Let_def u_safeMint_def andThen_Inr split: sum.splits)
  from step [OF Suc.prems(1) n m] have "P s1" .
  have "P s2"
  proof (rule checkOnERC721Received_preserves [of "nextCallback cbs" P exec s1 to s2])
    fix caller c s s'
    assume "(caller, c) \<in> set (callsOf (nextCallback cbs))" "P s" "exec caller c s = Inr s'"
    with nextCallback_calls [of cbs] show "P s'" using Suc.prems(3) by blast
  qed (fact \<open>P s1\<close>, fact h)
  show ?case
  proof (rule Suc.IH [OF \<open>P s2\<close> rest])
    fix caller c s s'
    assume "(caller, c) \<in> set (concat (map callsOf (tl cbs)))" "P s" "exec caller c s = Inr s'"
    with tl_calls [of cbs] show "P s'" using Suc.prems(3) by blast
  qed
qed

section \<open>The invariant holds in every reachable state\<close>

lemma direct_nested:
  assumes "(caller, c') \<in> set (direct c)"
  shows "(caller, c') \<in> set (nested c)" and "set (nested c') \<subseteq> set (nested c)"
proof -
  have cb: "(caller, c') \<in> set (callsOf cb) \<Longrightarrow>
            (caller, c') \<in> set (nestedIn cb) \<and> set (nested c') \<subseteq> set (nestedIn cb)" for cb
    by (cases cb) force
  from assms show "(caller, c') \<in> set (nested c)" and "set (nested c') \<subseteq> set (nested c)"
    using cb by (cases c; fastforce)+
qed

lemma wellFormed_step:
  assumes wf: "wellFormed s" and n: "checked_add (u_nextTokenId s) 1 = Inr n"
    and m: "u_mint (s\<lparr>u_nextTokenId := n\<rparr>) to (u_nextTokenId s) = Inr s1"
  shows "wellFormed s1"
proof -
  let ?c = "u_nextTokenId s"
  from n have b: "unat ?c + 1 < 2 ^ 256" and n': "n = ?c + 1"
    by (auto simp: checked_add_def split: if_splits)
  from b have un: "unat n = unat ?c + 1" unfolding n' using unat_add_256 [of ?c 1] by simp
  from m have to: "to \<noteq> 0" and
    s1: "s1 = s\<lparr>u_nextTokenId := n, u_balances := (u_balances s)(to := u_balances s to + 1),
                 u_owners := (u_owners s)(?c := to)\<rparr>"
    by (auto simp: u_mint_eq split: if_splits)
  from wf have c1: "1 \<le> unat ?c"
    and own: "\<And>t. (u_owners s t \<noteq> 0) = (1 \<le> unat t \<and> unat t < unat ?c)"
    and app: "\<And>t. u_owners s t = 0 \<Longrightarrow> u_tokenApprovals s t = 0"
    and op: "\<And>spender. \<not> u_operatorApprovals s 0 spender"
    and uri: "\<And>t. u_tokenURIs s t = []"
    unfolding wellFormed_def by blast+
  have 1: "1 \<le> unat (u_nextTokenId s1)" using c1 un by (simp add: s1)
  have 2: "(u_owners s1 t \<noteq> 0) = (1 \<le> unat t \<and> unat t < unat (u_nextTokenId s1))" for t
  proof (cases "t = ?c")
    case True
    with to c1 un show ?thesis by (simp add: s1)
  next
    case False
    then have "unat t \<noteq> unat ?c" by (simp add: word_unat_eq_iff)
    with False own [of t] un show ?thesis by (auto simp: s1)
  qed
  have 3: "u_owners s1 t = 0 \<Longrightarrow> u_tokenApprovals s1 t = 0" for t
    using app [of t] to by (cases "t = ?c") (simp_all add: s1)
  have 4: "\<not> u_operatorApprovals s1 0 spender" for spender using op by (simp add: s1)
  have 5: "u_tokenURIs s1 t = []" for t using uri by (simp add: s1)
  from 1 2 3 4 5 show ?thesis unfolding wellFormed_def by blast
qed

lemma mint_Inr:
  assumes "mint exec sender s to q cbs = Inr s'"
  shows "sender = owner s \<and> (\<exists>u. supplyCheck s q = Inr u) \<and> mintLoop exec (unat q) to cbs s = Inr s'"
  using assms by (auto simp: mint_def andThen_Inr u_checkOwner_def split: if_splits)

lemma publicMint_Inr:
  assumes "publicMint exec sender val s q cbs = Inr s'"
  shows "\<exists>b m. mintLoop exec (unat q) sender cbs (s\<lparr>balance := b, mintsPerAddress := m\<rparr>) = Inr s'"
  using assms unfolding publicMint_def Let_def andThen_Inr by auto

lemma constructor_wellFormed:
  "constructor sender name symbol maxSupply' baseURI royaltyRecipient' royaltyFeeBps' useJsonExtension' = Inr s
   \<Longrightarrow> wellFormed s"
  by (auto simp: constructor_def wellFormed_def split: if_splits)

lemma u_update_Inr:
  assumes wf: "wellFormed s" and "sender \<noteq> 0" and "to \<noteq> 0"
    and up: "u_update s to tokenId sender = Inr (prev, s')"
  shows "prev \<noteq> 0 \<and> u_owners s tokenId = prev \<and>
         s' = s\<lparr>u_tokenApprovals := (u_tokenApprovals s)(tokenId := 0),
                u_balances := ((u_balances s)(prev := u_balances s prev - 1))
                                (to := ((u_balances s)(prev := u_balances s prev - 1)) to + 1),
                u_owners := (u_owners s)(tokenId := to)\<rparr>"
proof (cases "u_owners s tokenId = 0")
  case True
  with wf assms(2) have "\<not> u_isAuthorized s 0 sender tokenId"
    by (auto simp: wellFormed_def u_isAuthorized_def isApprovedForAll_def u_getApproved_def)
  with True assms(2) up show ?thesis
    by (simp add: u_update_def andThen_def u_ownerOf_def Let_def u_checkAuthorized_def
          split: if_splits sum.splits)
next
  case False
  with assms(2,3) up show ?thesis
    by (auto simp: u_update_def andThen_def u_ownerOf_def Let_def split: if_splits sum.splits)
qed

lemma transferFrom_wellFormed:
  assumes wf: "wellFormed s" and "sender \<noteq> 0"
    and tr: "transferFrom sender s from to tokenId = Inr s'"
  shows "wellFormed s'"
proof -
  from tr have to: "to \<noteq> 0" by (auto simp: transferFrom_def split: if_splits)
  with tr obtain prev where "u_update s to tokenId sender = Inr (prev, s')"
    by (auto simp: transferFrom_def andThen_Inr split: if_splits)
  from u_update_Inr [OF wf assms(2) to this] have
    owned: "u_owners s tokenId \<noteq> 0" and
    f: "u_nextTokenId s' = u_nextTokenId s"
    "u_owners s' = (u_owners s)(tokenId := to)"
    "u_tokenApprovals s' = (u_tokenApprovals s)(tokenId := 0)"
    "u_operatorApprovals s' = u_operatorApprovals s" "u_tokenURIs s' = u_tokenURIs s"
    by simp_all
  from wf owned have rng: "1 \<le> unat tokenId \<and> unat tokenId < unat (u_nextTokenId s)"
    unfolding wellFormed_def by blast
  have "\<forall>t. (((u_owners s)(tokenId := to)) t \<noteq> 0) = (1 \<le> unat t \<and> unat t < unat (u_nextTokenId s))"
  proof
    fix t show "(((u_owners s)(tokenId := to)) t \<noteq> 0) = (1 \<le> unat t \<and> unat t < unat (u_nextTokenId s))"
      using wf to rng unfolding wellFormed_def by (cases "t = tokenId") simp_all
  qed
  moreover have "\<forall>t. ((u_owners s)(tokenId := to)) t = 0 \<longrightarrow> ((u_tokenApprovals s)(tokenId := 0)) t = 0"
    using wf unfolding wellFormed_def by simp
  ultimately show ?thesis
    using wf unfolding wellFormed_def f by blast
qed

lemma approve_wellFormed:
  assumes wf: "wellFormed s" and d: "approve sender s to tokenId = Inr s'"
  shows "wellFormed s'"
proof -
  from d have owned: "u_owners s tokenId \<noteq> 0"
    and s': "s' = s\<lparr>u_tokenApprovals := (u_tokenApprovals s)(tokenId := to)\<rparr>"
    by (auto simp: approve_def andThen_Inr u_requireOwned_def u_ownerOf_def Let_def
          split: if_splits)
  have "\<forall>t. u_owners s t = 0 \<longrightarrow> ((u_tokenApprovals s)(tokenId := to)) t = 0"
  proof (intro allI impI)
    fix t assume z: "u_owners s t = 0"
    with owned have "t \<noteq> tokenId" by auto
    moreover from wf z have "u_tokenApprovals s t = 0" unfolding wellFormed_def by blast
    ultimately show "((u_tokenApprovals s)(tokenId := to)) t = 0" by simp
  qed
  with wf show ?thesis unfolding wellFormed_def s' by simp
qed

lemma setApprovalForAll_wellFormed:
  assumes wf: "wellFormed s" and "sender \<noteq> 0"
    and d: "setApprovalForAll sender s operator approved = Inr s'"
  shows "wellFormed s'"
proof -
  from d have s': "s' = s\<lparr>u_operatorApprovals :=
      (u_operatorApprovals s)(sender := (u_operatorApprovals s sender)(operator := approved))\<rparr>"
    by (auto simp: setApprovalForAll_def split: if_splits)
  from wf assms(2) show ?thesis unfolding wellFormed_def s' by simp
qed

lemma admin_wellFormed:
  assumes wf: "wellFormed s"
  shows "setBaseURI sender s b = Inr s' \<Longrightarrow> wellFormed s'"
    and "setJsonExtension sender s f = Inr s' \<Longrightarrow> wellFormed s'"
    and "setPublicMintSettings sender s en pr mx = Inr s' \<Longrightarrow> wellFormed s'"
    and "setRoyaltyInfo sender s r fee = Inr s' \<Longrightarrow> wellFormed s'"
    and "withdraw ev sender s = Inr s' \<Longrightarrow> wellFormed s'"
    and "pause sender s = Inr s' \<Longrightarrow> wellFormed s'"
    and "unpause sender s = Inr s' \<Longrightarrow> wellFormed s'"
    and "transferOwnership sender s newOwner = Inr s' \<Longrightarrow> wellFormed s'"
    and "renounceOwnership sender s = Inr s' \<Longrightarrow> wellFormed s'"
  using wf
  by (clarsimp simp: setBaseURI_def setJsonExtension_def setPublicMintSettings_def
      setRoyaltyInfo_def withdraw_def pause_def unpause_def transferOwnership_def
      renounceOwnership_def andThen_Inr wellFormed_def split: if_splits)+

lemma mint_wellFormed:
  assumes calls: "\<And>caller c s s'. (caller, c) \<in> set (concat (map callsOf cbs)) \<Longrightarrow> wellFormed s \<Longrightarrow>
                    exec caller c s = Inr s' \<Longrightarrow> wellFormed s'"
    and wf: "wellFormed s" and m: "mint exec sender s to q cbs = Inr s'"
  shows "wellFormed s'"
proof -
  from mint_Inr [OF m] have "mintLoop exec (unat q) to cbs s = Inr s'" by blast
  with calls wellFormed_step wf show ?thesis by (rule mintLoop_preserves)
qed

lemma publicMint_wellFormed:
  assumes calls: "\<And>caller c s s'. (caller, c) \<in> set (concat (map callsOf cbs)) \<Longrightarrow> wellFormed s \<Longrightarrow>
                    exec caller c s = Inr s' \<Longrightarrow> wellFormed s'"
    and wf: "wellFormed s" and m: "publicMint exec sender val s q cbs = Inr s'"
  shows "wellFormed s'"
proof -
  from publicMint_Inr [OF m] obtain b mp where
    ml: "mintLoop exec (unat q) sender cbs (s\<lparr>balance := b, mintsPerAddress := mp\<rparr>) = Inr s'"
    by blast
  have "wellFormed (s\<lparr>balance := b, mintsPerAddress := mp\<rparr>)"
    using wf by (simp add: wellFormed_def)
  with calls wellFormed_step show ?thesis using ml by (rule mintLoop_preserves)
qed

lemma safeTransferFrom_wellFormed:
  assumes calls: "\<And>caller c s s'. (caller, c) \<in> set (callsOf cb) \<Longrightarrow> wellFormed s \<Longrightarrow>
                    exec caller c s = Inr s' \<Longrightarrow> wellFormed s'"
    and wf: "wellFormed s" and sender: "sender \<noteq> 0"
    and m: "safeTransferFrom exec sender s from to tokenId cb = Inr s'"
  shows "wellFormed s'"
proof -
  from m obtain s1 where t: "transferFrom sender s from to tokenId = Inr s1"
    and h: "checkOnERC721Received exec to cb s1 = Inr s'"
    by (auto simp: safeTransferFrom_def andThen_Inr)
  from wf sender t have "wellFormed s1" by (rule transferFrom_wellFormed)
  with calls show ?thesis using h by (rule checkOnERC721Received_preserves)
qed

lemma invoke_wellFormed:
  assumes calls: "\<And>caller c' s s'. (caller, c') \<in> set (direct c) \<Longrightarrow> wellFormed s \<Longrightarrow>
                    exec caller c' s = Inr s' \<Longrightarrow> wellFormed s'"
    and wf: "wellFormed s" and sender: "sender \<noteq> 0"
    and d: "invoke exec ev sender c s = Inr s'"
  shows "wellFormed s'"
proof (cases c)
  case (Mint to q cbs)
  with d have m: "mint exec sender s to q cbs = Inr s'" by simp
  from calls Mint have "\<And>caller c s s'. (caller, c) \<in> set (concat (map callsOf cbs)) \<Longrightarrow>
      wellFormed s \<Longrightarrow> exec caller c s = Inr s' \<Longrightarrow> wellFormed s'" by simp
  then show ?thesis using wf m by (rule mint_wellFormed)
next
  case (PublicMint v q cbs)
  with d have m: "publicMint exec sender v s q cbs = Inr s'" by simp
  from calls PublicMint have "\<And>caller c s s'. (caller, c) \<in> set (concat (map callsOf cbs)) \<Longrightarrow>
      wellFormed s \<Longrightarrow> exec caller c s = Inr s' \<Longrightarrow> wellFormed s'" by simp
  then show ?thesis using wf m by (rule publicMint_wellFormed)
next
  case (SetBaseURI b)
  with d have "setBaseURI sender s b = Inr s'" by simp
  with wf show ?thesis by (rule admin_wellFormed)
next
  case (SetJsonExtension f)
  with d have "setJsonExtension sender s f = Inr s'" by simp
  with wf show ?thesis by (rule admin_wellFormed)
next
  case (SetPublicMintSettings en pr mx)
  with d have "setPublicMintSettings sender s en pr mx = Inr s'" by simp
  with wf show ?thesis by (rule admin_wellFormed)
next
  case (SetRoyaltyInfo r fee)
  with d have "setRoyaltyInfo sender s r fee = Inr s'" by simp
  with wf show ?thesis by (rule admin_wellFormed)
next
  case Withdraw
  with d have "withdraw ev sender s = Inr s'" by simp
  with wf show ?thesis by (rule admin_wellFormed)
next
  case Pause
  with d have "pause sender s = Inr s'" by simp
  with wf show ?thesis by (rule admin_wellFormed)
next
  case Unpause
  with d have "unpause sender s = Inr s'" by simp
  with wf show ?thesis by (rule admin_wellFormed)
next
  case (Approve to tokenId)
  with d have "approve sender s to tokenId = Inr s'" by simp
  with wf show ?thesis by (rule approve_wellFormed)
next
  case (SetApprovalForAll operator approved)
  with d have "setApprovalForAll sender s operator approved = Inr s'" by simp
  with wf sender show ?thesis by (rule setApprovalForAll_wellFormed)
next
  case (TransferFrom "from" to tokenId)
  with d have "transferFrom sender s from to tokenId = Inr s'" by simp
  with wf sender show ?thesis by (rule transferFrom_wellFormed)
next
  case (SafeTransferFrom "from" to tokenId cb)
  with d have m: "safeTransferFrom exec sender s from to tokenId cb = Inr s'" by simp
  from calls SafeTransferFrom have "\<And>caller c s s'. (caller, c) \<in> set (callsOf cb) \<Longrightarrow>
      wellFormed s \<Longrightarrow> exec caller c s = Inr s' \<Longrightarrow> wellFormed s'" by simp
  then show ?thesis using wf sender m by (rule safeTransferFrom_wellFormed)
next
  case (TransferOwnership newOwner)
  with d have "transferOwnership sender s newOwner = Inr s'" by simp
  with wf show ?thesis by (rule admin_wellFormed)
next
  case RenounceOwnership
  with d have "renounceOwnership sender s = Inr s'" by simp
  with wf show ?thesis by (rule admin_wellFormed)
qed

lemma dispatch_wellFormed:
  "sender \<noteq> 0 \<Longrightarrow> \<forall>(caller, c') \<in> set (nested c). caller \<noteq> 0 \<Longrightarrow> wellFormed s \<Longrightarrow>
   dispatch d ev sender c s = Inr s' \<Longrightarrow> wellFormed s'"
proof (induction d arbitrary: sender c s s')
  case 0
  from 0(4) have "invoke (\<lambda>_ _ _. Inl CallFailed) ev sender c s = Inr s'" by simp
  with 0(3,1) show ?case
    by (rule invoke_wellFormed [rotated]) simp
next
  case (Suc d)
  from Suc.prems(4) have i: "invoke (dispatch d ev) ev sender c s = Inr s'" by simp
  show ?case
  proof (rule invoke_wellFormed [OF _ Suc.prems(3) Suc.prems(1) i])
    fix caller c' s s'
    assume in_c: "(caller, c') \<in> set (direct c)" and wf: "wellFormed s"
      and r: "dispatch d ev caller c' s = Inr s'"
    from direct_nested [OF in_c] Suc.prems(2)
    have "caller \<noteq> 0" and "\<forall>(caller, c'') \<in> set (nested c'). caller \<noteq> 0" by blast+
    then show "wellFormed s'" using wf r by (rule Suc.IH)
  qed
qed

lemma reachable_wellFormed: "reachable s \<Longrightarrow> wellFormed s"
proof (induction rule: reachable.induct)
  case (deployed sender name symbol maxSupply' baseURI royaltyRecipient' royaltyFeeBps' useJsonExtension' s)
  then show ?case by (rule constructor_wellFormed)
next
  case (step s sender c s' d ev)
  show ?case
  proof (cases "dispatch d ev sender c s")
    case (Inl e)
    with step show ?thesis by (simp add: transact_def)
  next
    case (Inr s1)
    with step have "s' = s1" by (simp add: transact_def)
    with step Inr show ?thesis using dispatch_wellFormed by blast
  qed
qed

section \<open>What a transaction leaves as it was\<close>

text \<open>
  A transaction in which no call, at any depth, is one of the setters named keeps the
  fields they assign.
\<close>

lemma keeps_step:
  assumes "keeps kb kf kr s0 s" and "checked_add (u_nextTokenId s) 1 = Inr n"
    and "u_mint (s\<lparr>u_nextTokenId := n\<rparr>) to (u_nextTokenId s) = Inr s1"
  shows "keeps kb kf kr s0 s1"
  using assms by (auto simp: keeps_def u_mint_eq split: if_splits)

lemma transferFrom_keeps:
  assumes "keeps kb kf kr s0 s" and "transferFrom sender s from to tokenId = Inr s'"
  shows "keeps kb kf kr s0 s'"
  using assms
  by (auto simp: keeps_def transferFrom_def u_update_def andThen_Inr Let_def split: if_splits)

lemma invoke_keeps:
  assumes calls: "\<And>caller c' s s'. (caller, c') \<in> set (direct c) \<Longrightarrow> keeps kb kf kr s0 s \<Longrightarrow>
                    exec caller c' s = Inr s' \<Longrightarrow> keeps kb kf kr s0 s'"
    and sp: "sparing kb kf kr c" and k: "keeps kb kf kr s0 s"
    and d: "invoke exec ev sender c s = Inr s'"
  shows "keeps kb kf kr s0 s'"
proof (cases c)
  case (Mint to q cbs)
  with d have "mint exec sender s to q cbs = Inr s'" by simp
  from mint_Inr [OF this] have ml: "mintLoop exec (unat q) to cbs s = Inr s'" by blast
  from calls Mint have "\<And>caller c s s'. (caller, c) \<in> set (concat (map callsOf cbs)) \<Longrightarrow>
      keeps kb kf kr s0 s \<Longrightarrow> exec caller c s = Inr s' \<Longrightarrow> keeps kb kf kr s0 s'" by simp
  then show ?thesis using keeps_step k ml by (rule mintLoop_preserves)
next
  case (PublicMint v q cbs)
  with d have "publicMint exec sender v s q cbs = Inr s'" by simp
  from publicMint_Inr [OF this] obtain b mp where
    ml: "mintLoop exec (unat q) sender cbs (s\<lparr>balance := b, mintsPerAddress := mp\<rparr>) = Inr s'"
    by blast
  have k': "keeps kb kf kr s0 (s\<lparr>balance := b, mintsPerAddress := mp\<rparr>)"
    using k by (simp add: keeps_def)
  from calls PublicMint have "\<And>caller c s s'. (caller, c) \<in> set (concat (map callsOf cbs)) \<Longrightarrow>
      keeps kb kf kr s0 s \<Longrightarrow> exec caller c s = Inr s' \<Longrightarrow> keeps kb kf kr s0 s'" by simp
  then show ?thesis using keeps_step k' ml by (rule mintLoop_preserves)
next
  case (TransferFrom "from" to tokenId)
  with d have "transferFrom sender s from to tokenId = Inr s'" by simp
  with k show ?thesis by (rule transferFrom_keeps)
next
  case (SafeTransferFrom "from" to tokenId cb)
  with d obtain s1 where t: "transferFrom sender s from to tokenId = Inr s1"
    and h: "checkOnERC721Received exec to cb s1 = Inr s'"
    by (auto simp: safeTransferFrom_def andThen_Inr)
  from k t have k1: "keeps kb kf kr s0 s1" by (rule transferFrom_keeps)
  from calls SafeTransferFrom have "\<And>caller c s s'. (caller, c) \<in> set (callsOf cb) \<Longrightarrow>
      keeps kb kf kr s0 s \<Longrightarrow> exec caller c s = Inr s' \<Longrightarrow> keeps kb kf kr s0 s'" by simp
  then show ?thesis using k1 h by (rule checkOnERC721Received_preserves)
qed (use sp k d in \<open>auto simp: keeps_def sparing_def setBaseURI_def setJsonExtension_def
      setPublicMintSettings_def setRoyaltyInfo_def withdraw_def pause_def unpause_def
      transferOwnership_def renounceOwnership_def approve_def setApprovalForAll_def andThen_Inr
      split: if_splits\<close>)

lemma allCalls_direct:
  assumes "(caller, c') \<in> set (direct c)"
  shows "set (allCalls c') \<subseteq> set (allCalls c)"
  using direct_nested [OF assms] by (force simp: allCalls_def)

lemma dispatch_keeps:
  "\<forall>c' \<in> set (allCalls c). sparing kb kf kr c' \<Longrightarrow> keeps kb kf kr s0 s \<Longrightarrow>
   dispatch d ev sender c s = Inr s' \<Longrightarrow> keeps kb kf kr s0 s'"
proof (induction d arbitrary: sender c s s')
  case 0
  from 0(1) have sp: "sparing kb kf kr c" by (simp add: allCalls_def)
  from 0(3) have "invoke (\<lambda>_ _ _. Inl CallFailed) ev sender c s = Inr s'" by simp
  with sp 0(2) show ?case by (rule invoke_keeps [rotated]) simp
next
  case (Suc d)
  from Suc.prems(1) have sp: "sparing kb kf kr c" by (simp add: allCalls_def)
  from Suc.prems(3) have i: "invoke (dispatch d ev) ev sender c s = Inr s'" by simp
  show ?case
  proof (rule invoke_keeps [OF _ sp Suc.prems(2) i])
    fix caller c' s s'
    assume in_c: "(caller, c') \<in> set (direct c)" and k: "keeps kb kf kr s0 s"
      and r: "dispatch d ev caller c' s = Inr s'"
    from allCalls_direct [OF in_c] Suc.prems(1)
    have "\<forall>c'' \<in> set (allCalls c'). sparing kb kf kr c''" by blast
    then show "keeps kb kf kr s0 s'" using k r by (rule Suc.IH)
  qed
qed

lemma transact_keeps:
  assumes "\<forall>c' \<in> set (allCalls c). sparing kb kf kr c'"
  shows "keeps kb kf kr s (fst (transact d ev sender c s))"
proof (cases "dispatch d ev sender c s")
  case (Inl e)
  then show ?thesis by (simp add: transact_def keeps_def)
next
  case (Inr s')
  have "keeps kb kf kr s s" by (simp add: keeps_def)
  from dispatch_keeps [OF assms this Inr] Inr show ?thesis by (simp add: transact_def)
qed

section \<open>The states of the fixture\<close>

lemma mintLoop_numeral:
  "mintLoop exec (numeral n) to cbs s = mintLoop exec (Suc (pred_numeral n)) to cbs s"
  by (simp add: numeral_eq_Suc)

lemma test_deployed_eq:
  "constructor test_owner ''Test NFT Collection'' ''TNC'' 1000
      ''https://api.test.com/metadata/'' test_owner 500 True = Inr test_deployed"
  by (simp add: test_deployed_def constructor_def test_owner_def)

lemma test_minted_eq:
  "transact 0 test_env test_owner (Mint test_addr1 1 []) test_deployed = (test_minted, None)"
  by (simp add: test_minted_def transact_def test_defs call_defs mint_defs)

lemma test_minted_fields:
  "u_owners test_minted 1 = test_addr1" "u_tokenURIs test_minted 1 = []"
  "u_baseTokenURI test_minted = ''https://api.test.com/metadata/''"
  "useJsonExtension test_minted" "owner test_minted = test_owner"
  "u_nextTokenId test_minted = 2"
  by (simp_all add: test_minted_def transact_def test_defs call_defs mint_defs)

lemma test_nobase_eq:
  "test_nobase = test_minted\<lparr>u_baseTokenURI := []\<rparr>"
  "test_nobase_plain = test_minted\<lparr>u_baseTokenURI := [], useJsonExtension := False\<rparr>"
  using test_minted_fields(5)
  by (simp_all add: test_nobase_def test_nobase_plain_def transact_def setBaseURI_def
        setJsonExtension_def u_checkOwner_def andThen_def owner_def)

lemma test_reachable:
  "reachable test_deployed" "reachable test_minted" "reachable test_nobase"
  "reachable test_nobase_plain"
proof -
  have o: "test_owner \<noteq> 0" by (simp add: test_owner_def)
  show d: "reachable test_deployed" using test_deployed_eq by (rule reachable.deployed)
  show m: "reachable test_minted"
    by (rule reachable.step [OF d o _ test_minted_def]) simp
  show n: "reachable test_nobase"
    by (rule reachable.step [OF m o _ test_nobase_def]) simp
  show "reachable test_nobase_plain"
    by (rule reachable.step [OF n o _ test_nobase_plain_def]) simp
qed

lemma cap_deployed_eq:
  "constructor test_owner ''Test NFT Collection'' ''TNC'' 3
      ''https://api.test.com/metadata/'' test_owner 500 True = Inr cap_deployed"
  by (simp add: cap_deployed_def constructor_def test_owner_def)

lemma cap_public_eq:
  "cap_public = cap_deployed\<lparr>publicMintEnabled := True, publicMintPrice := 0,
                             maxMintsPerAddress := 10\<rparr>"
  by (simp add: cap_public_def cap_deployed_def transact_def setPublicMintSettings_def
        test_defs call_defs)

lemmas cap_eval = transact_def cap_public_eq setPublicMintSettings_def cap_deployed_def reentrant_mint_def relayed_mint_def
  test_defs call_defs mint_defs Let_def mintLoop_numeral totalMinted_def nextTokenId_def

text \<open>
  The states with the maximum supply of 3 are reached from the deployment by transactions
  of non-zero callers.
\<close>

lemma cap_reachable:
  "reachable cap_deployed" "reachable cap_public" "reachable cap_exceeded"
  "reachable ids_interleaved"
proof -
  have o: "test_owner \<noteq> 0" and a: "test_addr1 \<noteq> 0" and b: "test_addr2 \<noteq> 0"
    by (simp_all add: test_owner_def test_addr1_def test_addr2_def)
  show d: "reachable cap_deployed" using cap_deployed_eq by (rule reachable.deployed)
  show p: "reachable cap_public"
    by (rule reachable.step [OF d o _ cap_public_def]) simp
  show "reachable cap_exceeded"
    by (rule reachable.step [OF p a _ cap_exceeded_def]) (simp add: reentrant_mint_def a)
  show "reachable ids_interleaved"
    by (rule reachable.step [OF p a _ ids_interleaved_def]) (simp add: relayed_mint_def b)
qed

section \<open>Token URI resolution: what \<open>tokenURI\<close> returns\<close>

lemma toString_nat_nonempty: "toString_nat n \<noteq> []"
  by (subst toString_nat.simps) simp

lemma toString_nonempty: "toString t \<noteq> []"
  by (simp add: toString_def toString_nat_nonempty)

lemma tokenURI_cases:
  "tokenURI s t =
     (if u_ownerOf s t = 0 then Inl (ERC721NonexistentToken t)
      else if u_baseTokenURI s = [] then Inr (u_tokenURIs s t)
      else if u_tokenURIs s t = [] \<or> u_tokenURIs s t = toString t
           then Inr (u_baseTokenURI s @ toString t @ (if useJsonExtension s then ''.json'' else []))
           else Inr (u_baseTokenURI s @ u_tokenURIs s t))"
  by (auto simp: uri_defs andThen_def Let_def)

text \<open>
  What the storage extension resolves for an existing token: the stored per-token URI when
  there is no base, the base followed by the stored URI when both are there, the base
  followed by the decimal token ID otherwise.
\<close>

lemma parentURI_cases:
  "ERC721URIStorage_tokenURI s t =
     (if u_ownerOf s t = 0 then Inl (ERC721NonexistentToken t)
      else if u_baseTokenURI s = [] then Inr (u_tokenURIs s t)
      else if u_tokenURIs s t \<noteq> [] then Inr (u_baseTokenURI s @ u_tokenURIs s t)
      else Inr (u_baseTokenURI s @ toString t))"
  by (auto simp: uri_defs andThen_def Let_def)

lemma reachable_no_stored_URI: "reachable s \<Longrightarrow> u_tokenURIs s t = []"
  using reachable_wellFormed [of s] unfolding wellFormed_def by blast

text \<open>
  Claim C1. For an existing token with no stored per-token URI and a non-empty base,
  \<open>tokenURI\<close> returns the base, the decimal token ID and \<^verbatim>\<open>.json\<close> when the flag is
  set, and the base and the decimal token ID when it is not. The witness is the scenario
  of the test suite: token 1 resolves to \<^verbatim>\<open>https://api.test.com/metadata/1.json\<close>, and
  to \<^verbatim>\<open>https://api.test.com/metadata/1\<close> once the owner has switched the flag off.
\<close>

theorem tokenURI_default:
  assumes "u_ownerOf s t \<noteq> 0" and "u_tokenURIs s t = []" and "u_baseTokenURI s \<noteq> []"
  shows "(useJsonExtension s \<longrightarrow> tokenURI s t = Inr (u_baseTokenURI s @ toString t @ ''.json'')) \<and>
         (\<not> useJsonExtension s \<longrightarrow> tokenURI s t = Inr (u_baseTokenURI s @ toString t))"
  using assms by (simp add: tokenURI_cases)

theorem tokenURI_default_witness:
  "tokenURI test_minted 1 = Inr ''https://api.test.com/metadata/1.json'' \<and>
   transact 0 test_env test_owner (SetJsonExtension False) test_minted
     = (test_minted\<lparr>useJsonExtension := False\<rparr>, None) \<and>
   tokenURI (test_minted\<lparr>useJsonExtension := False\<rparr>) 1 = Inr ''https://api.test.com/metadata/1''"
  using tokenURI_default [of test_minted 1]
        tokenURI_default [of "test_minted\<lparr>useJsonExtension := False\<rparr>" 1]
  by (simp add: test_minted_fields test_addr1_def toString_eval transact_def setJsonExtension_def
        u_checkOwner_def andThen_def u_ownerOf_def)

text \<open>
  Claim C2. The override of a token is the URI that \<open>tokenURI\<close> fetches from the
  storage extension (\<^verbatim>\<open>super.tokenURI\<close>, line 225). For an existing token whose
  fetched URI equals the base followed by the decimal token ID, \<open>tokenURI\<close> does not
  return the fetched URI as it is but follows the flag rule: the base, the decimal token
  ID and \<^verbatim>\<open>.json\<close> when the flag is set, the base and the decimal token ID when it is
  not. This holds in every reachable state, and in every state at all whose base is not
  empty. The witness is token 1 of the test suite, before and after the owner has
  switched the flag off.
\<close>

theorem override_equal_derived:
  assumes "u_ownerOf s t \<noteq> 0"
    and "ERC721URIStorage_tokenURI s t = Inr uri"
    and "uri = u_baseTokenURI s @ toString t"
    and "reachable s \<or> u_baseTokenURI s \<noteq> []"
  shows "(useJsonExtension s \<longrightarrow> tokenURI s t = Inr (u_baseTokenURI s @ toString t @ ''.json'')) \<and>
         (\<not> useJsonExtension s \<longrightarrow> tokenURI s t = Inr (u_baseTokenURI s @ toString t))"
proof -
  have base: "u_baseTokenURI s \<noteq> []"
  proof (rule ccontr)
    assume "\<not> u_baseTokenURI s \<noteq> []"
    then have e: "u_baseTokenURI s = []" by simp
    with assms(4) have "reachable s" by simp
    then have "u_tokenURIs s t = []" by (rule reachable_no_stored_URI)
    with e assms(1,2) have "uri = []" by (simp add: parentURI_cases)
    with e assms(3) toString_nonempty [of t] show False by simp
  qed
  from assms(1,2,3) base have "u_tokenURIs s t = [] \<or> u_tokenURIs s t = toString t"
    by (auto simp: parentURI_cases split: if_splits)
  with assms(1) base show ?thesis by (auto simp: tokenURI_cases)
qed

theorem override_equal_derived_witness:
  "ERC721URIStorage_tokenURI test_minted 1 = Inr ''https://api.test.com/metadata/1'' \<and>
   tokenURI test_minted 1 = Inr ''https://api.test.com/metadata/1.json'' \<and>
   fst (transact 0 test_env test_owner (SetJsonExtension False) test_minted)
     = test_minted\<lparr>useJsonExtension := False\<rparr> \<and>
   ERC721URIStorage_tokenURI (test_minted\<lparr>useJsonExtension := False\<rparr>) 1
     = Inr ''https://api.test.com/metadata/1'' \<and>
   tokenURI (test_minted\<lparr>useJsonExtension := False\<rparr>) 1 = Inr ''https://api.test.com/metadata/1''"
proof -
  have p: "ERC721URIStorage_tokenURI test_minted 1 = Inr ''https://api.test.com/metadata/1''"
    "ERC721URIStorage_tokenURI (test_minted\<lparr>useJsonExtension := False\<rparr>) 1
       = Inr ''https://api.test.com/metadata/1''"
    by (simp_all add: parentURI_cases test_minted_fields u_ownerOf_def test_addr1_def toString_eval)
  have o: "u_ownerOf test_minted 1 \<noteq> 0"
    "u_ownerOf (test_minted\<lparr>useJsonExtension := False\<rparr>) 1 \<noteq> 0"
    by (simp_all add: test_minted_fields u_ownerOf_def test_addr1_def)
  have e: "''https://api.test.com/metadata/1'' = u_baseTokenURI test_minted @ toString 1"
    "''https://api.test.com/metadata/1''
       = u_baseTokenURI (test_minted\<lparr>useJsonExtension := False\<rparr>) @ toString 1"
    by (simp_all add: test_minted_fields toString_eval)
  have r: "reachable test_minted \<or> u_baseTokenURI test_minted \<noteq> []"
    using test_reachable(2) by simp
  have b: "reachable (test_minted\<lparr>useJsonExtension := False\<rparr>)
           \<or> u_baseTokenURI (test_minted\<lparr>useJsonExtension := False\<rparr>) \<noteq> []"
    by (simp add: test_minted_fields)
  from override_equal_derived [OF o(1) p(1) e(1) r]
  have 1: "tokenURI test_minted 1 = Inr ''https://api.test.com/metadata/1.json''"
    by (simp add: test_minted_fields toString_eval)
  from override_equal_derived [OF o(2) p(2) e(2) b]
  have 2: "tokenURI (test_minted\<lparr>useJsonExtension := False\<rparr>) 1
             = Inr ''https://api.test.com/metadata/1''"
    by (simp add: test_minted_fields toString_eval)
  have 3: "fst (transact 0 test_env test_owner (SetJsonExtension False) test_minted)
             = test_minted\<lparr>useJsonExtension := False\<rparr>"
    by (simp add: transact_def setJsonExtension_def u_checkOwner_def andThen_def
          test_minted_fields)
  from p 1 2 3 show ?thesis by blast
qed



text \<open>
  Claim C4. For a token without an owner (never minted, or burned) \<open>tokenURI\<close> fails
  with \<^verbatim>\<open>ERC721NonexistentToken\<close>, the error of \<^verbatim>\<open>_requireOwned\<close> itself, and for an
  existing token it returns a URI. In a reachable state the tokens that were never minted
  are token 0 and those from the counter on: for them \<open>tokenURI\<close> fails, and for the
  IDs from 1 up to the counter, excluded, it returns a URI.
\<close>

theorem tokenURI_nonexistent:
  "(u_ownerOf s t = 0 \<longrightarrow> tokenURI s t = Inl (ERC721NonexistentToken t)) \<and>
   (u_ownerOf s t \<noteq> 0 \<longrightarrow> (\<exists>uri. tokenURI s t = Inr uri)) \<and>
   (reachable s \<longrightarrow>
      (t = 0 \<or> nextTokenId s \<le> t \<longrightarrow> tokenURI s t = Inl (ERC721NonexistentToken t)) \<and>
      (1 \<le> t \<and> t < nextTokenId s \<longrightarrow> (\<exists>uri. tokenURI s t = Inr uri)))"
proof -
  have "reachable s \<Longrightarrow> (u_ownerOf s t \<noteq> 0) = (1 \<le> t \<and> t < nextTokenId s)"
    using reachable_wellFormed [of s]
    unfolding wellFormed_def u_ownerOf_def nextTokenId_def word_le_nat_alt word_less_nat_alt
    by simp
  moreover have "t = 0 \<or> nextTokenId s \<le> t \<longleftrightarrow> \<not> (1 \<le> t \<and> t < nextTokenId s)"
  proof -
    have "t = 0 \<longleftrightarrow> \<not> 1 \<le> unat t" using unat_gt_0 [of t] by auto
    then show ?thesis by (auto simp: word_le_nat_alt word_less_nat_alt)
  qed
  ultimately show ?thesis by (auto simp: tokenURI_cases)
qed

theorem tokenURI_nonexistent_witness:
  "tokenURI test_minted 2 = Inl (ERC721NonexistentToken 2) \<and>
   tokenURI test_minted 0 = Inl (ERC721NonexistentToken 0) \<and>
   (\<exists>uri. tokenURI test_minted 1 = Inr uri)"
proof -
  have n: "nextTokenId test_minted = 2" by (simp add: nextTokenId_def test_minted_fields)
  from tokenURI_nonexistent [of test_minted 2] test_reachable(2)
  have 1: "tokenURI test_minted 2 = Inl (ERC721NonexistentToken 2)" by (simp add: n)
  from tokenURI_nonexistent [of test_minted 0] test_reachable(2)
  have 2: "tokenURI test_minted 0 = Inl (ERC721NonexistentToken 0)" by simp
  from tokenURI_nonexistent [of test_minted 1] test_reachable(2)
  have 3: "\<exists>uri. tokenURI test_minted 1 = Inr uri" by (simp add: n)
  from 1 2 3 show ?thesis by blast
qed

text \<open>
  Claim C5. For an existing token with no stored per-token URI and an empty base,
  \<open>tokenURI\<close> returns the empty string, whatever the flag. The witness is token 1 of
  the test suite after the owner has set the empty base, with the flag on and off.
\<close>

theorem tokenURI_empty_base:
  assumes "u_ownerOf s t \<noteq> 0" and "u_tokenURIs s t = []" and "u_baseTokenURI s = []"
  shows "tokenURI s t = Inr []"
  using assms by (simp add: tokenURI_cases)

theorem tokenURI_empty_base_witness:
  "tokenURI test_nobase 1 = Inr [] \<and> useJsonExtension test_nobase \<and>
   tokenURI test_nobase_plain 1 = Inr [] \<and> \<not> useJsonExtension test_nobase_plain"
  using tokenURI_empty_base [of test_nobase 1] tokenURI_empty_base [of test_nobase_plain 1]
  by (simp add: test_nobase_eq test_minted_fields u_ownerOf_def test_addr1_def)

section \<open>The two setters\<close>

text \<open>
  The setters reach no receiver: they run the same at every depth.
\<close>

lemma dispatch_setters:
  "dispatch d ev sender (SetBaseURI newBase) s = setBaseURI sender s newBase"
  "dispatch d ev sender (SetJsonExtension flag) s = setJsonExtension sender s flag"
  "dispatch d ev sender (SetRoyaltyInfo recipient feeBps) s = setRoyaltyInfo sender s recipient feeBps"
  by (cases d; simp)+

text \<open>
  Claim C6. Called by anyone but the owner, \<open>setBaseURI\<close> and \<open>setJsonExtension\<close>
  revert with \<^verbatim>\<open>OwnableUnauthorizedAccount\<close> and the state stays as it was. Called by
  the owner, each assigns its argument and nothing else, and the next resolution of a
  token without a stored URI uses the new base, or the new flag. The base stays as it is
  through every transaction in which \<open>setBaseURI\<close> is not called, neither as the
  transaction's call nor by a receiver that the transaction reaches, and the flag through
  every transaction in which \<open>setJsonExtension\<close> is not called.
\<close>

theorem setters_owner_only:
  "(sender \<noteq> owner s \<longrightarrow>
      transact d ev sender (SetBaseURI newBase) s = (s, Some (OwnableUnauthorizedAccount sender)) \<and>
      transact d ev sender (SetJsonExtension flag) s = (s, Some (OwnableUnauthorizedAccount sender))) \<and>
   (sender = owner s \<longrightarrow>
      transact d ev sender (SetBaseURI newBase) s = (s\<lparr>u_baseTokenURI := newBase\<rparr>, None) \<and>
      transact d ev sender (SetJsonExtension flag) s = (s\<lparr>useJsonExtension := flag\<rparr>, None) \<and>
      u_baseURI (fst (transact d ev sender (SetBaseURI newBase) s)) = newBase \<and>
      useJsonExtension (fst (transact d ev sender (SetJsonExtension flag) s)) = flag \<and>
      (u_ownerOf s t \<noteq> 0 \<and> u_tokenURIs s t = [] \<and> newBase \<noteq> [] \<longrightarrow>
         tokenURI (fst (transact d ev sender (SetBaseURI newBase) s)) t
           = Inr (newBase @ toString t @ (if useJsonExtension s then ''.json'' else []))) \<and>
      (u_ownerOf s t \<noteq> 0 \<and> u_tokenURIs s t = [] \<and> u_baseTokenURI s \<noteq> [] \<longrightarrow>
         tokenURI (fst (transact d ev sender (SetJsonExtension flag) s)) t
           = Inr (u_baseTokenURI s @ toString t @ (if flag then ''.json'' else [])))) \<and>
   ((\<forall>c' \<in> set (allCalls c). \<forall>b. c' \<noteq> SetBaseURI b) \<longrightarrow>
      u_baseURI (fst (transact d' ev' sender' c s1)) = u_baseURI s1) \<and>
   ((\<forall>c' \<in> set (allCalls c). \<forall>f. c' \<noteq> SetJsonExtension f) \<longrightarrow>
      useJsonExtension (fst (transact d' ev' sender' c s1)) = useJsonExtension s1)"
proof -
  have A: "(\<forall>c' \<in> set (allCalls c). \<forall>b. c' \<noteq> SetBaseURI b) \<longrightarrow>
      u_baseURI (fst (transact d' ev' sender' c s1)) = u_baseURI s1"
    using transact_keeps [of c True False False s1 d' ev' sender']
    by (simp add: sparing_def keeps_def u_baseURI_def)
  have B: "(\<forall>c' \<in> set (allCalls c). \<forall>f. c' \<noteq> SetJsonExtension f) \<longrightarrow>
      useJsonExtension (fst (transact d' ev' sender' c s1)) = useJsonExtension s1"
    using transact_keeps [of c False True False s1 d' ev' sender']
    by (simp add: sparing_def keeps_def)
  from A B show ?thesis
    by (simp add: transact_def dispatch_setters setBaseURI_def setJsonExtension_def u_checkOwner_def andThen_def
        tokenURI_cases u_baseURI_def u_ownerOf_def)
qed

theorem setters_owner_only_witness:
  "transact 0 test_env test_addr1 (SetBaseURI ''https://hack.com/'') test_minted
     = (test_minted, Some (OwnableUnauthorizedAccount test_addr1)) \<and>
   transact 0 test_env test_addr1 (SetJsonExtension False) test_minted
     = (test_minted, Some (OwnableUnauthorizedAccount test_addr1)) \<and>
   tokenURI (fst (transact 0 test_env test_owner (SetBaseURI ''https://api.newtest.com/metadata/'') test_minted)) 1
     = Inr ''https://api.newtest.com/metadata/1.json'' \<and>
   tokenURI (fst (transact 0 test_env test_owner (SetJsonExtension False) test_minted)) 1
     = Inr ''https://api.test.com/metadata/1'' \<and>
   u_baseURI (fst (transact 1 test_env test_addr1 reentrant_mint test_minted))
     = u_baseURI test_minted"
proof -
  note w1 = setters_owner_only [where sender = test_addr1 and s = test_minted and ev = test_env
          and d = 0 and newBase = "''https://hack.com/''" and flag = False and t = 1
          and c = reentrant_mint and d' = 1 and ev' = test_env and sender' = test_addr1
          and ?s1.0 = test_minted]
  note w2 = setters_owner_only [where sender = test_owner and s = test_minted and ev = test_env
          and d = 0 and newBase = "''https://api.newtest.com/metadata/''" and flag = False
          and t = 1 and c = reentrant_mint and d' = 1 and ev' = test_env
          and sender' = test_addr1 and ?s1.0 = test_minted]
  have calls: "\<forall>c' \<in> set (allCalls reentrant_mint). \<forall>b. c' \<noteq> SetBaseURI b"
    by (simp add: allCalls_def reentrant_mint_def)
  from w1 w2 calls show ?thesis
    by (auto simp: test_minted_fields test_addr1_def test_owner_def u_ownerOf_def toString_eval)
qed

text \<open>
  Claim C7. Two calls of \<open>setBaseURI\<close> in a row by the same caller with the same
  argument leave the state that one call leaves, so every later resolution is the same.
\<close>

theorem setBaseURI_idempotent:
  "fst (transact d2 ev2 sender (SetBaseURI x) (fst (transact d1 ev1 sender (SetBaseURI x) s)))
     = fst (transact d1 ev1 sender (SetBaseURI x) s) \<and>
   tokenURI (fst (transact d2 ev2 sender (SetBaseURI x) (fst (transact d1 ev1 sender (SetBaseURI x) s)))) t
     = tokenURI (fst (transact d1 ev1 sender (SetBaseURI x) s)) t"
  by (simp add: transact_def dispatch_setters setBaseURI_def u_checkOwner_def andThen_def owner_def)

theorem setBaseURI_idempotent_witness:
  "tokenURI (fst (transact 0 test_env test_owner (SetBaseURI ''u/'')
      (fst (transact 0 test_env test_owner (SetBaseURI ''u/'') test_minted)))) 1
   = tokenURI (fst (transact 0 test_env test_owner (SetBaseURI ''u/'') test_minted)) 1"
  using setBaseURI_idempotent [of 0 test_env test_owner "''u/''" 0 test_env test_minted 1]
  by simp

section \<open>Token IDs and the supply cap\<close>

text \<open>
  Claim C8 says that a \<open>publicMint\<close> of quantity 2 assigns the two consecutive next
  IDs and advances the counter by 2. The loop of lines 96 to 100 hands each token to its
  receiver before it reads the counter for the next one, and nothing keeps the receiver
  from minting in between. On the deployment with a maximum supply of 3, once the owner
  has enabled the public mint at price 0, the counter is 1; the second account calls
  \<^verbatim>\<open>publicMint(2)\<close> and, when it is handed token 1, has the third account call
  \<^verbatim>\<open>publicMint(2)\<close>. The transaction succeeds and leaves the counter at 5, not 3:
  the caller's two tokens are 1 and 4, and tokens 2 and 3 belong to the third account.
\<close>

theorem tokenIds_interleaved:
  "nextTokenId cap_public = 1 \<and>
   snd (transact 1 test_env test_addr1 relayed_mint cap_public) = None \<and>
   nextTokenId ids_interleaved = 5 \<and>
   u_ownerOf ids_interleaved 1 = test_addr1 \<and>
   u_ownerOf ids_interleaved 2 = test_addr2 \<and>
   u_ownerOf ids_interleaved 3 = test_addr2 \<and>
   u_ownerOf ids_interleaved 4 = test_addr1"
  by (simp add: ids_interleaved_def cap_eval)

text \<open>
  Claim C9 says that \<open>totalMinted\<close> is at most \<open>maxSupply\<close> in every reachable
  state. The code checks the maximum supply once, before the loop (lines 74 and 90), and
  the loop hands each token to its receiver before the next iteration, as above. On the
  same deployment, once the owner has enabled the public mint at price 0, the second
  account calls \<^verbatim>\<open>publicMint(2)\<close> and, when it is handed token 1,
  calls \<^verbatim>\<open>publicMint(2)\<close> again. Both checks pass (1 + 2 - 1 and 2 + 2 - 1 are at most
  3), the transaction succeeds, and it leaves the counter at 5: \<open>totalMinted\<close> is 4,
  above the maximum supply of 3.
\<close>

theorem supply_cap_exceeded:
  "transact 0 test_env test_owner (SetPublicMintSettings True 0 10) cap_deployed
     = (cap_public, None) \<and>
   totalMinted cap_public = Inr 0 \<and> maxSupply cap_public = 3 \<and>
   snd (transact 1 test_env test_addr1 reentrant_mint cap_public) = None \<and>
   nextTokenId cap_exceeded = 5 \<and>
   totalMinted cap_exceeded = Inr 4 \<and>
   maxSupply cap_exceeded = 3 \<and>
   \<not> (4 :: uint256) \<le> maxSupply cap_exceeded"
  by (simp add: cap_exceeded_def cap_eval)

section \<open>Royalties\<close>

lemma unat_ucast_fee: "unat (ucast (f :: uint96) :: uint256) = unat f"
proof -
  have "unat f < 2 ^ 96" using unsigned_less [of f, where ?'a = nat] by simp
  then have "unat f < 2 ^ 256" by simp
  then show ?thesis by (simp add: unsigned_ucast_eq take_bit_nat_eq_self)
qed

lemma royaltyInfo_cases:
  "royaltyInfo s tokenId salePrice =
     (if unat salePrice * unat (royaltyFeeBps s) < 2 ^ 256
      then Inr (royaltyRecipient s, salePrice * ucast (royaltyFeeBps s) div 10000)
      else Inl Panic)"
  by (simp add: royaltyInfo_def checked_mul_def andThen_def unat_ucast_fee)

lemma royalty_amount:
  assumes "unat salePrice * unat (f :: uint96) < 2 ^ 256"
  shows "unat ((salePrice :: uint256) * ucast f div 10000) = unat salePrice * unat f div 10000"
proof -
  have "unat (salePrice * ucast f) = unat salePrice * unat f"
    using assms unat_mult_lem [of salePrice "ucast f :: uint256"] by (simp add: unat_ucast_fee)
  then show ?thesis by (simp add: unat_div)
qed

text \<open>
  Claim C10, as stated, fails twice. A caller who is not the owner and passes a fee
  above 1000 gets \<^verbatim>\<open>OwnableUnauthorizedAccount\<close>, not \<^verbatim>\<open>Royalty fee too high\<close>. And
  after the owner has set a fee of 750, \<open>royaltyInfo\<close> for a sale price of \<open>2 ^ 255\<close>
  returns no amount: the checked multiplication of line 196 overflows and the call
  reverts.
\<close>

theorem royalty_counterexample:
  "(1000 :: uint96) < 1001 \<and>
   transact 0 test_env test_addr1 (SetRoyaltyInfo test_addr1 1001) test_deployed
     = (test_deployed, Some (OwnableUnauthorizedAccount test_addr1)) \<and>
   transact 0 test_env test_owner (SetRoyaltyInfo test_addr1 750) test_deployed
     = (test_deployed\<lparr>royaltyRecipient := test_addr1, royaltyFeeBps := 750\<rparr>, None) \<and>
   royaltyInfo (test_deployed\<lparr>royaltyRecipient := test_addr1, royaltyFeeBps := 750\<rparr>) 1 (2 ^ 255)
     = Inl Panic"
  by (simp add: transact_def dispatch_setters setRoyaltyInfo_def test_defs call_defs royaltyInfo_cases)

text \<open>
  Claim C10, amended. Called by anyone but the owner, \<open>setRoyaltyInfo\<close> reverts with
  \<^verbatim>\<open>OwnableUnauthorizedAccount\<close>. Called by the owner, it reverts with
  \<^verbatim>\<open>Royalty fee too high\<close> exactly when the fee is above 1000, and otherwise stores
  recipient and fee. A call that reverts leaves the state as it was. After a successful
  call, \<open>royaltyInfo\<close> returns the recipient and the sale price times the fee divided
  by 10000, rounded down, for every sale price whose product with the fee fits 256
  bits, and reverts with a panic for the others. Every transaction in which
  \<open>setRoyaltyInfo\<close> is not called, neither as the transaction's call nor by a receiver
  that the transaction reaches, leaves the result of \<open>royaltyInfo\<close> as it was.
\<close>

theorem royalty:
  "(sender \<noteq> owner s \<longrightarrow>
      transact d ev sender (SetRoyaltyInfo recipient feeBps) s
        = (s, Some (OwnableUnauthorizedAccount sender))) \<and>
   (sender = owner s \<longrightarrow>
      (transact d ev sender (SetRoyaltyInfo recipient feeBps) s
         = (s, Some (Error ''Royalty fee too high'')) \<longleftrightarrow> 1000 < feeBps) \<and>
      (feeBps \<le> 1000 \<longrightarrow>
         transact d ev sender (SetRoyaltyInfo recipient feeBps) s
           = (s\<lparr>royaltyRecipient := recipient, royaltyFeeBps := feeBps\<rparr>, None) \<and>
         (unat salePrice * unat feeBps < 2 ^ 256 \<longrightarrow>
            (\<exists>amount. royaltyInfo (fst (transact d ev sender (SetRoyaltyInfo recipient feeBps) s)) tokenId salePrice
                        = Inr (recipient, amount) \<and>
                      unat amount = unat salePrice * unat feeBps div 10000)) \<and>
         (2 ^ 256 \<le> unat salePrice * unat feeBps \<longrightarrow>
            royaltyInfo (fst (transact d ev sender (SetRoyaltyInfo recipient feeBps) s)) tokenId salePrice
              = Inl Panic))) \<and>
   (snd (transact d ev sender (SetRoyaltyInfo recipient feeBps) s) \<noteq> None \<longrightarrow>
      fst (transact d ev sender (SetRoyaltyInfo recipient feeBps) s) = s) \<and>
   ((\<forall>c' \<in> set (allCalls c). \<forall>r f. c' \<noteq> SetRoyaltyInfo r f) \<longrightarrow>
      royaltyInfo (fst (transact d' ev' sender' c s1)) tokenId salePrice = royaltyInfo s1 tokenId salePrice)"
proof -
  have A: "sender \<noteq> owner s \<longrightarrow>
      transact d ev sender (SetRoyaltyInfo recipient feeBps) s
        = (s, Some (OwnableUnauthorizedAccount sender))"
    by (simp add: transact_def dispatch_setters setRoyaltyInfo_def u_checkOwner_def andThen_def)
  have B: "sender = owner s \<longrightarrow>
      (transact d ev sender (SetRoyaltyInfo recipient feeBps) s
         = (s, Some (Error ''Royalty fee too high'')) \<longleftrightarrow> 1000 < feeBps)"
    by (auto simp: transact_def dispatch_setters setRoyaltyInfo_def u_checkOwner_def andThen_def require_def)
  have C: "sender = owner s \<and> feeBps \<le> 1000 \<longrightarrow>
         transact d ev sender (SetRoyaltyInfo recipient feeBps) s
           = (s\<lparr>royaltyRecipient := recipient, royaltyFeeBps := feeBps\<rparr>, None)"
    by (simp add: transact_def dispatch_setters setRoyaltyInfo_def u_checkOwner_def andThen_def require_def)
  have D: "unat salePrice * unat feeBps < 2 ^ 256 \<longrightarrow>
            (\<exists>amount. royaltyInfo (s\<lparr>royaltyRecipient := recipient, royaltyFeeBps := feeBps\<rparr>) tokenId salePrice
                        = Inr (recipient, amount) \<and>
                      unat amount = unat salePrice * unat feeBps div 10000)"
    using royalty_amount [of salePrice feeBps] by (simp add: royaltyInfo_cases)
  have E: "2 ^ 256 \<le> unat salePrice * unat feeBps \<longrightarrow>
            royaltyInfo (s\<lparr>royaltyRecipient := recipient, royaltyFeeBps := feeBps\<rparr>) tokenId salePrice
              = Inl Panic"
    by (simp add: royaltyInfo_cases)
  have F: "snd (transact d ev sender (SetRoyaltyInfo recipient feeBps) s) \<noteq> None \<longrightarrow>
      fst (transact d ev sender (SetRoyaltyInfo recipient feeBps) s) = s"
    by (simp add: transact_def split: sum.splits)
  have G: "(\<forall>c' \<in> set (allCalls c). \<forall>r f. c' \<noteq> SetRoyaltyInfo r f) \<longrightarrow>
      royaltyInfo (fst (transact d' ev' sender' c s1)) tokenId salePrice = royaltyInfo s1 tokenId salePrice"
    using transact_keeps [of c False False True s1 d' ev' sender']
    by (simp add: sparing_def keeps_def royaltyInfo_cases)
  from C D E have CDE: "sender = owner s \<longrightarrow> feeBps \<le> 1000 \<longrightarrow>
         transact d ev sender (SetRoyaltyInfo recipient feeBps) s
           = (s\<lparr>royaltyRecipient := recipient, royaltyFeeBps := feeBps\<rparr>, None) \<and>
         (unat salePrice * unat feeBps < 2 ^ 256 \<longrightarrow>
            (\<exists>amount. royaltyInfo (fst (transact d ev sender (SetRoyaltyInfo recipient feeBps) s)) tokenId salePrice
                        = Inr (recipient, amount) \<and>
                      unat amount = unat salePrice * unat feeBps div 10000)) \<and>
         (2 ^ 256 \<le> unat salePrice * unat feeBps \<longrightarrow>
            royaltyInfo (fst (transact d ev sender (SetRoyaltyInfo recipient feeBps) s)) tokenId salePrice
              = Inl Panic)"
    by simp
  from A B CDE F G show ?thesis by blast
qed

theorem royalty_witness:
  "transact 0 test_env test_owner (SetRoyaltyInfo test_addr1 1001) test_deployed
     = (test_deployed, Some (Error ''Royalty fee too high'')) \<and>
   (\<exists>amount. royaltyInfo (fst (transact 0 test_env test_owner (SetRoyaltyInfo test_addr1 750) test_deployed))
                1 10000 = Inr (test_addr1, amount) \<and> unat amount = 750) \<and>
   royaltyInfo (fst (transact 0 test_env test_owner (SetRoyaltyInfo test_addr1 750) test_deployed))
     1 (2 ^ 255) = Inl Panic"
proof -
  have o: "test_owner = owner test_deployed" by (simp add: test_defs owner_def)
  note t1 = royalty [where sender = test_owner and s = test_deployed and ev = test_env and d = 0
      and recipient = test_addr1 and feeBps = 1001]
  note t2 = royalty [where sender = test_owner and s = test_deployed and ev = test_env and d = 0
      and recipient = test_addr1 and feeBps = 750 and salePrice = 10000 and tokenId = 1]
  note t3 = royalty [where sender = test_owner and s = test_deployed and ev = test_env and d = 0
      and recipient = test_addr1 and feeBps = 750 and salePrice = "2 ^ 255" and tokenId = 1]
  from t1 [THEN conjunct2, THEN conjunct1, rule_format, OF o, THEN conjunct1]
  have 1: "transact 0 test_env test_owner (SetRoyaltyInfo test_addr1 1001) test_deployed
     = (test_deployed, Some (Error ''Royalty fee too high''))" by simp
  have f: "(750 :: uint96) \<le> 1000" by simp
  note u2 = t2 [THEN conjunct2, THEN conjunct1, rule_format, OF o, THEN conjunct2, rule_format, OF f]
  note u3 = t3 [THEN conjunct2, THEN conjunct1, rule_format, OF o, THEN conjunct2, rule_format, OF f]
  from u2 have 2: "\<exists>amount. royaltyInfo (fst (transact 0 test_env test_owner (SetRoyaltyInfo test_addr1 750) test_deployed))
                1 10000 = Inr (test_addr1, amount) \<and> unat amount = 750" by auto
  from u3 have 3: "royaltyInfo (fst (transact 0 test_env test_owner (SetRoyaltyInfo test_addr1 750) test_deployed))
     1 (2 ^ 255) = Inl Panic" by auto
  from 1 2 3 show ?thesis by blast
qed

end
